theory Spec2Isabelle
  imports Complex_Main "HOL-Library.AList" "HOL-Library.Sublist" "HOL-Library.Word"
begin

section \<open>JavaScript values shared by the three components\<close>

text \<open>
  A thrown value is an \<open>Error\<close> with its message, or some other value (given by its
  text). A plain object used as a dictionary (\<open>Record<string, T>\<close>) is an association
  list of its own properties in insertion order (integer-like keys are not moved to the
  front). Reading \<open>obj[k]\<close> also finds the members inherited from \<open>Object.prototype\<close>,
  all of them truthy and none an array; assigning \<open>obj[''__proto__''] = v\<close> creates no
  own property.
\<close>

datatype thrown = JsError string | NonError string

definition objectPrototypeKeys :: "string list" where
  "objectPrototypeKeys =
     [''constructor'', ''__proto__'', ''toString'', ''toLocaleString'', ''valueOf'',
      ''hasOwnProperty'', ''isPrototypeOf'', ''propertyIsEnumerable'',
      ''__defineGetter__'', ''__defineSetter__'', ''__lookupGetter__'', ''__lookupSetter__'']"

datatype 'a slot = Own 'a | Inherited | Missing

definition lookupProp :: "(string \<times> 'a) list \<Rightarrow> string \<Rightarrow> 'a slot" where
  "lookupProp obj k =
     (case map_of obj k of
        Some v \<Rightarrow> Own v
      | None \<Rightarrow> if k \<in> set objectPrototypeKeys then Inherited else Missing)"

definition setProp :: "string \<Rightarrow> 'a \<Rightarrow> (string \<times> 'a) list \<Rightarrow> (string \<times> 'a) list" where
  "setProp k v obj = (if k = ''__proto__'' then obj else AList.update k v obj)"

section \<open>Share accounting (src/server/bitcoin/share-processor.ts)\<close>

text \<open>
  JavaScript numbers are modelled as exact reals and \<open>Date\<close> values as their
  millisecond counts (\<open>int\<close>).
\<close>

record Share =
  workerId :: string
  ip :: string
  timestamp :: int
  difficulty :: real
  isValid :: bool
  isBlock :: "bool option"
  blockHeight :: "nat option"
  blockHash :: "string option"

text \<open>\<open>MemoryShareStorage\<close>: the array \<open>shares\<close> and its filters.\<close>

type_synonym MemoryShareStorage = "Share list"

definition saveShare :: "Share \<Rightarrow> MemoryShareStorage \<Rightarrow> MemoryShareStorage" where
  "saveShare share shares = shares @ [share]"

definition getWorkerValidShares ::
  "MemoryShareStorage \<Rightarrow> string \<Rightarrow> int \<Rightarrow> int \<Rightarrow> Share list" where
  "getWorkerValidShares shares w startTime endTime =
     filter (\<lambda>share. workerId share = w \<and> isValid share \<and>
                     timestamp share \<ge> startTime \<and> timestamp share \<le> endTime) shares"

definition getPoolValidShares :: "MemoryShareStorage \<Rightarrow> int \<Rightarrow> int \<Rightarrow> Share list" where
  "getPoolValidShares shares startTime endTime =
     filter (\<lambda>share. isValid share \<and>
                     timestamp share \<ge> startTime \<and> timestamp share \<le> endTime) shares"

record ShareProcessor =
  storage :: MemoryShareStorage
  blockReward :: real
  poolFeePercent :: real

definition createShareProcessor :: ShareProcessor where
  "createShareProcessor = \<lparr>storage = [], blockReward = 6.25, poolFeePercent = 1.0\<rparr>"

text \<open>\<open>shares.reduce((sum, share) => sum + share.difficulty, 0)\<close>\<close>

definition sumDifficulty :: "Share list \<Rightarrow> real" where
  "sumDifficulty shares = foldl (\<lambda>sum share. sum + difficulty share) 0 shares"

record HashrateUpdated =
  hu_workerId :: string
  hu_hashrate :: real
  hu_shares :: nat
  hu_timestamp :: int

text \<open>
  \<open>calculateHashrates\<close>: \<open>None\<close> is the early return without an event, \<open>Some\<close> the
  payload of the emitted \<open>hashrate:updated\<close> event. \<open>now\<close> is the clock reading.
\<close>

definition calculateHashrates :: "ShareProcessor \<Rightarrow> string \<Rightarrow> int \<Rightarrow> HashrateUpdated option" where
  "calculateHashrates sp w now =
     (let endTime = now;
          startTime = endTime - 10 * 60 * 1000;
          shares = getWorkerValidShares (storage sp) w startTime endTime
      in if length shares = 0 then None
         else
           let totalDifficulty = sumDifficulty shares;
               timeWindowSeconds = real_of_int (endTime - startTime) / 1000;
               hashrate = totalDifficulty * 4295000000 / timeWindowSeconds
           in Some \<lparr>hu_workerId = w, hu_hashrate = hashrate,
                     hu_shares = length shares, hu_timestamp = now\<rparr>)"

definition calculatePoolHashrate :: "ShareProcessor \<Rightarrow> int \<Rightarrow> real" where
  "calculatePoolHashrate sp now =
     (let endTime = now;
          startTime = endTime - 10 * 60 * 1000;
          shares = getPoolValidShares (storage sp) startTime endTime
      in if length shares = 0 then 0
         else
           let totalDifficulty = sumDifficulty shares;
               timeWindowSeconds = real_of_int (endTime - startTime) / 1000
           in totalDifficulty * 4295000000 / timeWindowSeconds)"

record RewardCalculated =
  rc_blockHeight :: "nat option"
  rc_blockHash :: "string option"
  rc_totalReward :: real
  rc_poolFee :: real
  rc_workerRewards :: "(string \<times> real) list"
  rc_timestamp :: int

text \<open>
  The grouping loop, one step per share of the window: \<open>if (!workerShares[id])\<close> starts a
  list only when nothing, own or inherited, is found under the worker's name, and
  \<open>workerShares[id].push(share)\<close> throws a \<open>TypeError\<close> when what is found is an inherited
  member.
\<close>

definition groupShare ::
  "(string \<times> Share list) list \<Rightarrow> Share \<Rightarrow> thrown + (string \<times> Share list) list" where
  "groupShare workerShares share =
     (let ws = (case lookupProp workerShares (workerId share) of
                  Missing \<Rightarrow> setProp (workerId share) [] workerShares
                | _ \<Rightarrow> workerShares)
      in case lookupProp ws (workerId share) of
           Own l \<Rightarrow> Inr (AList.update (workerId share) (l @ [share]) ws)
         | _ \<Rightarrow> Inl (JsError ''workerShares[share.workerId].push is not a function''))"

fun groupByWorkerFrom ::
  "(string \<times> Share list) list \<Rightarrow> Share list \<Rightarrow> thrown + (string \<times> Share list) list" where
  "groupByWorkerFrom workerShares [] = Inr workerShares"
| "groupByWorkerFrom workerShares (share # rest) =
     (case groupShare workerShares share of
        Inl e \<Rightarrow> Inl e
      | Inr ws \<Rightarrow> groupByWorkerFrom ws rest)"

definition groupByWorker :: "Share list \<Rightarrow> thrown + (string \<times> Share list) list" where
  "groupByWorker allShares = groupByWorkerFrom [] allShares"

text \<open>The reward loop \<open>for (const workerId in workerShares)\<close>.\<close>

definition workerReward :: "real \<Rightarrow> real \<Rightarrow> Share list \<Rightarrow> real" where
  "workerReward rewardAfterFee totalDifficulty l =
     (let workerTotalDifficulty = sumDifficulty l;
          proportion = workerTotalDifficulty / totalDifficulty
      in rewardAfterFee * proportion)"

text \<open>
  \<open>calculateBlockRewards\<close>: \<open>Some\<close> is the payload of the emitted \<open>reward:calculated\<close>
  event; \<open>None\<close> is a return without an event, either the early return on an empty
  window or the \<open>catch\<close> block, which only logs.
\<close>

definition calculateBlockRewards :: "ShareProcessor \<Rightarrow> Share \<Rightarrow> int \<Rightarrow> RewardCalculated option" where
  "calculateBlockRewards sp blockShare now =
     (let endTime = now;
          startTime = endTime - 60 * 60 * 1000;
          allShares = getPoolValidShares (storage sp) startTime endTime
      in if length allShares = 0 then None
         else
           let totalDifficulty = sumDifficulty allShares;
               poolFee = blockReward sp * (poolFeePercent sp / 100);
               rewardAfterFee = blockReward sp - poolFee
           in case groupByWorker allShares of
                Inl e \<Rightarrow> None
              | Inr workerShares \<Rightarrow>
                  let rewards = foldl (\<lambda>rewards (w, l).
                                  setProp w (workerReward rewardAfterFee totalDifficulty l) rewards)
                               [] workerShares
                  in Some \<lparr>rc_blockHeight = blockHeight blockShare,
                            rc_blockHash = blockHash blockShare,
                            rc_totalReward = blockReward sp,
                            rc_poolFee = poolFee,
                            rc_workerRewards = rewards,
                            rc_timestamp = now\<rparr>)"

datatype sp_event =
    HashrateUpdatedEv HashrateUpdated
  | RewardCalculatedEv RewardCalculated
  | ShareProcessedEv string bool real int

text \<open>
  \<open>processShare\<close>: the share is saved, the worker's hashrate is recomputed, and a share
  with a truthy \<open>isBlock\<close> triggers the reward split. The result is the processor after
  the call and the events emitted, in order. One clock reading \<open>now\<close> serves the whole
  call.
\<close>

definition processShare :: "ShareProcessor \<Rightarrow> Share \<Rightarrow> int \<Rightarrow> ShareProcessor \<times> sp_event list" where
  "processShare sp share now =
     (let sp1 = sp\<lparr>storage := saveShare share (storage sp)\<rparr>;
          ev1 = (case calculateHashrates sp1 (workerId share) now of
                   None \<Rightarrow> [] | Some h \<Rightarrow> [HashrateUpdatedEv h]);
          ev2 = (if isBlock share = Some True
                 then (case calculateBlockRewards sp1 share now of
                         None \<Rightarrow> [] | Some r \<Rightarrow> [RewardCalculatedEv r])
                 else [])
      in (sp1, ev1 @ ev2 @
            [ShareProcessedEv (workerId share) (isValid share) (difficulty share) (timestamp share)]))"

text \<open>The valid shares of the trailing 60-minute reward window at time \<open>now\<close>.\<close>

definition rewardWindow :: "ShareProcessor \<Rightarrow> int \<Rightarrow> Share list" where
  "rewardWindow sp now = getPoolValidShares (storage sp) (now - 60 * 60 * 1000) now"

text \<open>Auxiliary notions for the proofs about the grouping loop.\<close>

definition sharesOf :: "(string \<times> Share list) list \<Rightarrow> string \<Rightarrow> Share list" where
  "sharesOf ws w = (case map_of ws w of None \<Rightarrow> [] | Some l \<Rightarrow> l)"

definition groupStep :: "(string \<times> Share list) list \<Rightarrow> Share \<Rightarrow> (string \<times> Share list) list" where
  "groupStep ws s = AList.update (workerId s) (sharesOf ws (workerId s) @ [s]) ws"

definition groupsTotal :: "(string \<times> Share list) list \<Rightarrow> real" where
  "groupsTotal ws = sum_list (map (\<lambda>p. sumDifficulty (snd p)) ws)"

text \<open>
  A ledger for the scenarios: miner A with difficulty 100 and 200, miner B with 100 (and
  one invalid share), miner C with a share older than an hour.
\<close>

definition exampleShares :: "Share list" where
  "exampleShares =
     [\<lparr>workerId = ''minerA'', ip = ''10.0.0.1'', timestamp = 3000000, difficulty = 100,
       isValid = True, isBlock = None, blockHeight = None, blockHash = None\<rparr>,
      \<lparr>workerId = ''minerC'', ip = ''10.0.0.3'', timestamp = 100000, difficulty = 50,
       isValid = True, isBlock = None, blockHeight = None, blockHash = None\<rparr>,
      \<lparr>workerId = ''minerB'', ip = ''10.0.0.2'', timestamp = 3500000, difficulty = 100,
       isValid = True, isBlock = None, blockHeight = None, blockHash = None\<rparr>,
      \<lparr>workerId = ''minerB'', ip = ''10.0.0.2'', timestamp = 3600000, difficulty = 70,
       isValid = False, isBlock = None, blockHeight = None, blockHash = None\<rparr>,
      \<lparr>workerId = ''minerA'', ip = ''10.0.0.1'', timestamp = 3900000, difficulty = 200,
       isValid = True, isBlock = Some True, blockHeight = Some 800000,
       blockHash = Some ''00ab''\<rparr>]"

definition exampleProcessor :: ShareProcessor where
  "exampleProcessor = createShareProcessor\<lparr>storage := exampleShares\<rparr>"

text \<open>
  A ledger in which one miner has chosen the worker name \<open>constructor\<close>; its last share
  found a block.
\<close>

definition inheritedNameShares :: "Share list" where
  "inheritedNameShares =
     [\<lparr>workerId = ''minerA'', ip = ''10.0.0.1'', timestamp = 3000000, difficulty = 100,
       isValid = True, isBlock = None, blockHeight = None, blockHash = None\<rparr>,
      \<lparr>workerId = ''constructor'', ip = ''10.0.0.2'', timestamp = 3500000, difficulty = 100,
       isValid = True, isBlock = None, blockHeight = None, blockHash = None\<rparr>,
      \<lparr>workerId = ''minerA'', ip = ''10.0.0.1'', timestamp = 3900000, difficulty = 200,
       isValid = True, isBlock = Some True, blockHeight = Some 800000,
       blockHash = Some ''00ab''\<rparr>]"

section \<open>Payout manager (PayoutManager and MemoryPayoutStorage)\<close>

text \<open>
  The storage array holds the payout objects; a batch holds references to the same
  objects, modelled as their positions in the array (objects are only ever appended).
  Each call of an operation runs to completion before the next one starts. The fields
  \<open>id\<close> and \<open>timestamp\<close> of a payout are \<open>payout_id\<close> and \<open>payoutTimestamp\<close> here.
\<close>

datatype PayoutStatus = PENDING | PROCESSING | COMPLETED | FAILED

record Payout =
  payout_id :: string
  userId :: string
  amount :: real
  fee :: real
  status :: PayoutStatus
  transactionId :: "string option"
  payoutTimestamp :: int
  processedAt :: "int option"

datatype payout_event =
    PayoutCreated Payout
  | PayoutCompleted Payout
  | PayoutFailed Payout string

text \<open>
  The actions of the manager that are visible outside it, in program order: reads of the
  pending payouts, assignments to a payout's \<open>status\<close> (with the position of the object;
  the creation of the object with its first status counts as one), the two calls to the
  node and the emitted events.
\<close>

datatype action =
    GetPendingPayouts
  | StatusWrite nat PayoutStatus
  | CreateRawTransaction "(string \<times> real) list"
  | SignAndSendRawTransaction string
  | Emit payout_event

text \<open>
  The node is external: what its two calls answer is a parameter. \<open>Inl\<close> is a throw.
\<close>

record BitcoinNode =
  createRawTransaction :: "(string \<times> real) list \<Rightarrow> thrown + string"
  signAndSendRawTransaction :: "string \<Rightarrow> thrown + string"

text \<open>
  The manager is an \<open>EventEmitter\<close>: \<open>listeners\<close> are the registered listeners, in the
  order of registration. A listener either returns (\<open>None\<close>) or throws.
\<close>

record PayoutManager =
  payouts :: "Payout list"
  isProcessing :: bool
  minPayout :: real
  maxPayoutsPerBatch :: int
  listeners :: "(payout_event \<Rightarrow> thrown option) list"
  trace :: "action list"

definition createPayoutManager :: "real \<Rightarrow> int \<Rightarrow> PayoutManager" where
  "createPayoutManager minP maxB =
     \<lparr>payouts = [], isProcessing = False, minPayout = minP, maxPayoutsPerBatch = maxB,
      listeners = [], trace = []\<rparr>"

definition on :: "(payout_event \<Rightarrow> thrown option) \<Rightarrow> PayoutManager \<Rightarrow> PayoutManager" where
  "on listener m = m\<lparr>listeners := listeners m @ [listener]\<rparr>"

text \<open>\<open>Array.prototype.find\<close>, returning the position of the first match.\<close>

fun findIndex :: "('a \<Rightarrow> bool) \<Rightarrow> 'a list \<Rightarrow> nat option" where
  "findIndex P [] = None"
| "findIndex P (x # xs) = (if P x then Some 0 else map_option Suc (findIndex P xs))"

text \<open>
  \<open>updatePayoutStatus\<close>: a transaction id is stored only when it is truthy (a non-empty
  string); \<open>processedAt\<close> is set on the two final statuses.
\<close>

definition updatePayoutStatus ::
  "string \<Rightarrow> PayoutStatus \<Rightarrow> string option \<Rightarrow> int \<Rightarrow> PayoutManager \<Rightarrow> thrown + PayoutManager" where
  "updatePayoutStatus i st txid now m =
     (case findIndex (\<lambda>p. payout_id p = i) (payouts m) of
        None \<Rightarrow> Inl (JsError (''Payout with ID '' @ i @ '' not found''))
      | Some k \<Rightarrow>
          let p = payouts m ! k;
              p1 = p\<lparr>status := st\<rparr>;
              p2 = (case txid of
                      None \<Rightarrow> p1
                    | Some t \<Rightarrow> if t \<noteq> [] then p1\<lparr>transactionId := Some t\<rparr> else p1);
              p3 = (if st = COMPLETED \<or> st = FAILED then p2\<lparr>processedAt := Some now\<rparr> else p2)
          in Inr (m\<lparr>payouts := (payouts m)[k := p3],
                    trace := trace m @ [StatusWrite k st]\<rparr>))"

definition getPendingPayouts :: "PayoutManager \<Rightarrow> nat list" where
  "getPendingPayouts m = filter (\<lambda>k. status (payouts m ! k) = PENDING) [0..<length (payouts m)]"

text \<open>
  \<open>emit\<close> calls the listeners one after the other, synchronously; what a listener throws
  is thrown by \<open>emit\<close> to the code that emitted the event.
\<close>

fun callListeners :: "(payout_event \<Rightarrow> thrown option) list \<Rightarrow> payout_event \<Rightarrow> thrown option" where
  "callListeners [] ev = None"
| "callListeners (listener # rest) ev =
     (case listener ev of Some e \<Rightarrow> Some e | None \<Rightarrow> callListeners rest ev)"

definition emit :: "payout_event \<Rightarrow> PayoutManager \<Rightarrow> (thrown \<times> PayoutManager) + PayoutManager" where
  "emit ev m =
     (let m1 = m\<lparr>trace := trace m @ [Emit ev]\<rparr>
      in case callListeners (listeners m) ev of
           None \<Rightarrow> Inr m1
         | Some e \<Rightarrow> Inl (e, m1))"

text \<open>Decimal rendering of a number inside a template string.\<close>

fun toString :: "nat \<Rightarrow> string" where
  "toString n =
     (if n < 10 then [''0123456789'' ! n]
      else toString (n div 10) @ [''0123456789'' ! (n mod 10)])"

declare toString.simps [simp del]

text \<open>
  \<open>generatePayoutId\<close>: \<open>now\<close> is the reading of \<open>Date.now()\<close> and \<open>rnd\<close> the value of
  the whole expression \<open>Math.floor(Math.random() * 1000000)\<close>, an integer.
\<close>

definition generatePayoutId :: "nat \<Rightarrow> nat \<Rightarrow> string" where
  "generatePayoutId now rnd = ''payout_'' @ toString now @ ''_'' @ toString rnd"

text \<open>
  \<open>createPayout\<close> is left either by its own error (the amount is below the minimum) or,
  after the payout has been saved, by what a listener of \<open>payout:created\<close> throws.
\<close>

datatype create_error = BelowMinimum real real | ListenerThrew thrown

definition createPayout ::
  "string \<Rightarrow> real \<Rightarrow> nat \<Rightarrow> nat \<Rightarrow> PayoutManager \<Rightarrow> (create_error + Payout) \<times> PayoutManager" where
  "createPayout user amt now rnd m =
     (if amt < minPayout m then (Inl (BelowMinimum amt (minPayout m)), m)
      else
        let payoutId = generatePayoutId now rnd;
            payout = \<lparr>payout_id = payoutId, userId = user, amount = amt, fee = 0,
                      status = PENDING, transactionId = None, payoutTimestamp = int now,
                      processedAt = None\<rparr>;
            m1 = m\<lparr>payouts := payouts m @ [payout],
                   trace := trace m @ [StatusWrite (length (payouts m)) PENDING]\<rparr>
        in case emit (PayoutCreated payout) m1 of
             Inl (e, m2) \<Rightarrow> (Inl (ListenerThrew e), m2)
           | Inr m2 \<Rightarrow> (Inr payout, m2))"

text \<open>
  The three loops of \<open>processBatch\<close> have one shape: for each payout of the batch, update
  its status through the storage (by id) and then possibly emit an event built from the
  payout object. A throw, of the storage or of a listener, leaves the loop with the
  state reached so far.
\<close>

fun markEach ::
  "PayoutStatus \<Rightarrow> string option \<Rightarrow> (Payout \<Rightarrow> payout_event option) \<Rightarrow> int \<Rightarrow> nat list
     \<Rightarrow> PayoutManager \<Rightarrow> (thrown \<times> PayoutManager) + PayoutManager" where
  "markEach st txid ev now [] m = Inr m"
| "markEach st txid ev now (r # rs) m =
     (case updatePayoutStatus (payout_id (payouts m ! r)) st txid now m of
        Inl e \<Rightarrow> Inl (e, m)
      | Inr m1 \<Rightarrow>
          (case ev (payouts m1 ! r) of
             None \<Rightarrow> markEach st txid ev now rs m1
           | Some e \<Rightarrow>
               (case emit e m1 of
                  Inl x \<Rightarrow> Inl x
                | Inr m2 \<Rightarrow> markEach st txid ev now rs m2)))"

definition markProcessing :: "int \<Rightarrow> nat list \<Rightarrow> PayoutManager \<Rightarrow> (thrown \<times> PayoutManager) + PayoutManager" where
  "markProcessing now = markEach PROCESSING None (\<lambda>payout. None) now"

definition markCompleted ::
  "string \<Rightarrow> int \<Rightarrow> nat list \<Rightarrow> PayoutManager \<Rightarrow> (thrown \<times> PayoutManager) + PayoutManager" where
  "markCompleted txid now =
     markEach COMPLETED (Some txid)
       (\<lambda>payout. Some (PayoutCompleted
          (payout\<lparr>status := COMPLETED, transactionId := Some txid, processedAt := Some now\<rparr>)))
       now"

definition errorMessage :: "thrown \<Rightarrow> string" where
  "errorMessage e = (case e of JsError msg \<Rightarrow> msg | NonError v \<Rightarrow> ''Unknown error'')"

definition markFailed ::
  "thrown \<Rightarrow> int \<Rightarrow> nat list \<Rightarrow> PayoutManager \<Rightarrow> (thrown \<times> PayoutManager) + PayoutManager" where
  "markFailed e now =
     markEach FAILED None
       (\<lambda>payout. Some (PayoutFailed (payout\<lparr>status := FAILED, processedAt := Some now\<rparr>)
                         (errorMessage e)))
       now"

text \<open>\<open>outputs[payout.userId] = payout.amount\<close> for each payout of the batch.\<close>

definition buildOutputs :: "nat list \<Rightarrow> PayoutManager \<Rightarrow> (string \<times> real) list" where
  "buildOutputs refs m =
     foldl (\<lambda>outputs r. setProp (userId (payouts m ! r)) (amount (payouts m ! r)) outputs)
       [] refs"

text \<open>The \<open>try\<close> block of \<open>processBatch\<close>: \<open>Inl\<close> carries the thrown value to the handler.\<close>

definition processBatchTry ::
  "BitcoinNode \<Rightarrow> int \<Rightarrow> nat list \<Rightarrow> PayoutManager \<Rightarrow> (thrown \<times> PayoutManager) + PayoutManager" where
  "processBatchTry node now refs m =
     (case markProcessing now refs m of
        Inl x \<Rightarrow> Inl x
      | Inr m1 \<Rightarrow>
          let outputs = buildOutputs refs m1;
              m2 = m1\<lparr>trace := trace m1 @ [CreateRawTransaction outputs]\<rparr>
          in case createRawTransaction node outputs of
               Inl e \<Rightarrow> Inl (e, m2)
             | Inr rawTx \<Rightarrow>
                 let m3 = m2\<lparr>trace := trace m2 @ [SignAndSendRawTransaction rawTx]\<rparr>
                 in case signAndSendRawTransaction node rawTx of
                      Inl e \<Rightarrow> Inl (e, m3)
                    | Inr txid \<Rightarrow> markCompleted txid now refs m3)"

definition processBatch ::
  "BitcoinNode \<Rightarrow> int \<Rightarrow> nat list \<Rightarrow> PayoutManager \<Rightarrow> (thrown + nat) \<times> PayoutManager" where
  "processBatch node now refs m =
     (case processBatchTry node now refs m of
        Inr m1 \<Rightarrow> (Inr (length refs), m1)
      | Inl (e, m1) \<Rightarrow>
          (case markFailed e now refs m1 of
             Inl (e2, m2) \<Rightarrow> (Inl e2, m2)
           | Inr m2 \<Rightarrow> (Inr 0, m2)))"

text \<open>The batching loop of \<open>processPayouts\<close>.\<close>

fun makeBatches :: "int \<Rightarrow> nat list \<Rightarrow> nat list \<Rightarrow> nat list list \<Rightarrow> nat list list" where
  "makeBatches mx [] currentBatch batches =
     (if length currentBatch > 0 then batches @ [currentBatch] else batches)"
| "makeBatches mx (payout # rest) currentBatch batches =
     (let currentBatch1 = currentBatch @ [payout]
      in if int (length currentBatch1) \<ge> mx
         then makeBatches mx rest [] (batches @ [currentBatch1])
         else makeBatches mx rest currentBatch1 batches)"

text \<open>
  The loop over the batches; \<open>nodes k\<close> is what the node answers during batch number
  \<open>k\<close>.
\<close>

fun processBatches ::
  "(nat \<Rightarrow> BitcoinNode) \<Rightarrow> nat \<Rightarrow> int \<Rightarrow> nat list list \<Rightarrow> nat \<Rightarrow> PayoutManager
     \<Rightarrow> (thrown + nat) \<times> PayoutManager" where
  "processBatches nodes k now [] processedCount m = (Inr processedCount, m)"
| "processBatches nodes k now (batch # rest) processedCount m =
     (case processBatch (nodes k) now batch m of
        (Inl e, m1) \<Rightarrow> (Inl e, m1)
      | (Inr result, m1) \<Rightarrow> processBatches nodes (Suc k) now rest (processedCount + result) m1)"

definition processPayouts ::
  "(nat \<Rightarrow> BitcoinNode) \<Rightarrow> int \<Rightarrow> PayoutManager \<Rightarrow> (thrown + nat) \<times> PayoutManager" where
  "processPayouts nodes now m =
     (if isProcessing m then (Inr 0, m)
      else
        let m1 = m\<lparr>isProcessing := True\<rparr>;
            m2 = m1\<lparr>trace := trace m1 @ [GetPendingPayouts]\<rparr>;
            pendingPayouts = getPendingPayouts m2
        in if length pendingPayouts = 0 then (Inr 0, m2\<lparr>isProcessing := False\<rparr>)
           else
             let batches = makeBatches (maxPayoutsPerBatch m2) pendingPayouts [] [];
                 (res, m3) = processBatches nodes 0 now batches 0 m2
             in (res, m3\<lparr>isProcessing := False\<rparr>))"

text \<open>Sequences of calls to the two public operations.\<close>

datatype operation =
    CreatePayout string real nat nat
  | ProcessPayouts "nat \<Rightarrow> BitcoinNode" int

fun perform :: "operation \<Rightarrow> PayoutManager \<Rightarrow> PayoutManager" where
  "perform (CreatePayout user amt now rnd) m = snd (createPayout user amt now rnd m)"
| "perform (ProcessPayouts nodes now) m = snd (processPayouts nodes now m)"

definition run :: "operation list \<Rightarrow> PayoutManager \<Rightarrow> PayoutManager" where
  "run ops m = foldl (\<lambda>m' op. perform op m') m ops"

text \<open>
  The ids produced by the \<open>CreatePayout\<close> calls of a sequence are fresh: none repeats an
  id already in the storage.
\<close>

fun freshIds :: "operation list \<Rightarrow> PayoutManager \<Rightarrow> bool" where
  "freshIds [] m = True"
| "freshIds (CreatePayout user amt now rnd # ops) m =
     ((amt < minPayout m \<or> generatePayoutId now rnd \<notin> payout_id ` set (payouts m))
      \<and> freshIds ops (perform (CreatePayout user amt now rnd) m))"
| "freshIds (ProcessPayouts nodes now # ops) m = freshIds ops (perform (ProcessPayouts nodes now) m)"

text \<open>The values assigned to the status of the object at position \<open>r\<close>, in order.\<close>

fun statusWrites :: "nat \<Rightarrow> action list \<Rightarrow> PayoutStatus list" where
  "statusWrites r [] = []"
| "statusWrites r (StatusWrite k st # as) =
     (if k = r then st # statusWrites r as else statusWrites r as)"
| "statusWrites r (a # as) = statusWrites r as"

fun emitted :: "action list \<Rightarrow> payout_event list" where
  "emitted [] = []"
| "emitted (Emit ev # as) = ev # emitted as"
| "emitted (a # as) = emitted as"

fun nodeOutputs :: "action list \<Rightarrow> (string \<times> real) list list" where
  "nodeOutputs [] = []"
| "nodeOutputs (CreateRawTransaction outputs # as) = outputs # nodeOutputs as"
| "nodeOutputs (a # as) = nodeOutputs as"

definition legalHistory :: "PayoutStatus list \<Rightarrow> bool" where
  "legalHistory h \<longleftrightarrow>
     prefix h [PENDING, PROCESSING, COMPLETED] \<or> prefix h [PENDING, PROCESSING, FAILED]"

text \<open>
  Auxiliary notions for the proofs about the payout loops: \<open>markStep\<close> is one round of a
  loop when nothing throws, \<open>frame\<close> what a batch leaves alone, \<open>quiet\<close> a manager none
  of whose listeners throws, \<open>wfBatch\<close> a batch of distinct existing payouts in a quiet
  manager whose storage has unique ids.
\<close>

definition withStatus :: "PayoutStatus \<Rightarrow> string option \<Rightarrow> int \<Rightarrow> Payout \<Rightarrow> Payout" where
  "withStatus st txid now p =
     (let p1 = p\<lparr>status := st\<rparr>;
          p2 = (case txid of
                  None \<Rightarrow> p1
                | Some t \<Rightarrow> if t \<noteq> [] then p1\<lparr>transactionId := Some t\<rparr> else p1)
      in if st = COMPLETED \<or> st = FAILED then p2\<lparr>processedAt := Some now\<rparr> else p2)"

definition markStep ::
  "PayoutStatus \<Rightarrow> string option \<Rightarrow> (Payout \<Rightarrow> payout_event option) \<Rightarrow> int \<Rightarrow> PayoutManager
     \<Rightarrow> nat \<Rightarrow> PayoutManager" where
  "markStep st txid ev now m r =
     (let m1 = m\<lparr>payouts := (payouts m)[r := withStatus st txid now (payouts m ! r)],
                 trace := trace m @ [StatusWrite r st]\<rparr>
      in case ev (payouts m1 ! r) of
           None \<Rightarrow> m1
         | Some e \<Rightarrow> m1\<lparr>trace := trace m1 @ [Emit e]\<rparr>)"

definition frame :: "PayoutManager \<Rightarrow> PayoutManager \<Rightarrow> bool" where
  "frame m m' \<longleftrightarrow>
     map payout_id (payouts m') = map payout_id (payouts m)
     \<and> map userId (payouts m') = map userId (payouts m)
     \<and> map amount (payouts m') = map amount (payouts m)
     \<and> isProcessing m' = isProcessing m
     \<and> minPayout m' = minPayout m
     \<and> maxPayoutsPerBatch m' = maxPayoutsPerBatch m
     \<and> listeners m' = listeners m"

definition quiet :: "PayoutManager \<Rightarrow> bool" where
  "quiet m \<longleftrightarrow> (\<forall>ev. callListeners (listeners m) ev = None)"

definition wfBatch :: "PayoutManager \<Rightarrow> nat list \<Rightarrow> bool" where
  "wfBatch m refs \<longleftrightarrow>
     distinct (map payout_id (payouts m)) \<and> (\<forall>r\<in>set refs. r < length (payouts m)) \<and> distinct refs
     \<and> quiet m"

definition eventsOf ::
  "PayoutStatus \<Rightarrow> string option \<Rightarrow> (Payout \<Rightarrow> payout_event option) \<Rightarrow> int \<Rightarrow> PayoutManager
     \<Rightarrow> nat list \<Rightarrow> payout_event list" where
  "eventsOf st txid ev now m refs =
     concat (map (\<lambda>r. case ev (withStatus st txid now (payouts m ! r)) of
                          None \<Rightarrow> [] | Some e \<Rightarrow> [e]) refs)"

text \<open>
  The invariant between two calls: ids are unique, no run is in progress, no listener
  throws, and every payout is either untouched or has gone through one complete batch.
\<close>

definition settled :: "PayoutManager \<Rightarrow> nat \<Rightarrow> bool" where
  "settled m r \<longleftrightarrow>
     (if r < length (payouts m)
      then (status (payouts m ! r) = PENDING \<and> statusWrites r (trace m) = [PENDING])
         \<or> (status (payouts m ! r) = COMPLETED
              \<and> statusWrites r (trace m) = [PENDING, PROCESSING, COMPLETED])
         \<or> (status (payouts m ! r) = FAILED
              \<and> statusWrites r (trace m) = [PENDING, PROCESSING, FAILED])
      else statusWrites r (trace m) = [])"

definition quiescent :: "PayoutManager \<Rightarrow> bool" where
  "quiescent m \<longleftrightarrow>
     distinct (map payout_id (payouts m)) \<and> \<not> isProcessing m \<and> quiet m \<and> (\<forall>r. settled m r)"

definition extends :: "PayoutManager \<Rightarrow> PayoutManager \<Rightarrow> bool" where
  "extends m m' \<longleftrightarrow>
     length (payouts m) \<le> length (payouts m')
     \<and> (\<forall>r<length (payouts m). amount (payouts m' ! r) = amount (payouts m ! r))"

text \<open>Nodes and payouts for the scenarios; two of the payouts go to the same address.\<close>

definition okNode :: BitcoinNode where
  "okNode = \<lparr>createRawTransaction = (\<lambda>outputs. Inr ''rawtx''),
              signAndSendRawTransaction = (\<lambda>rawTx. Inr ''txid01'')\<rparr>"

definition failNode :: BitcoinNode where
  "failNode = \<lparr>createRawTransaction = (\<lambda>outputs. Inr ''rawtx''),
                signAndSendRawTransaction = (\<lambda>rawTx. Inl (JsError ''broadcast failed''))\<rparr>"

definition stringThrowingNode :: BitcoinNode where
  "stringThrowingNode =
     \<lparr>createRawTransaction = (\<lambda>outputs. Inr ''rawtx''),
      signAndSendRawTransaction = (\<lambda>rawTx. Inl (NonError ''insufficient funds''))\<rparr>"

definition exampleCreates :: "operation list" where
  "exampleCreates =
     [CreatePayout ''addrA'' (1/2) 1000 250000,
      CreatePayout ''addrB'' (1/4) 1000 500000,
      CreatePayout ''addrA'' (1/8) 1002 750000]"

definition exampleOps :: "operation list" where
  "exampleOps = exampleCreates @ [ProcessPayouts (\<lambda>k. okNode) 5000]"

definition examplePending :: PayoutManager where
  "examplePending = run exampleCreates (createPayoutManager (1/1000) 50)"

definition p0 :: Payout where
  "p0 = \<lparr>payout_id = ''payout_1000_250000'', userId = ''addrA'', amount = 1/2, fee = 0,
         status = PENDING, transactionId = None, payoutTimestamp = 1000, processedAt = None\<rparr>"

definition p1 :: Payout where
  "p1 = \<lparr>payout_id = ''payout_1000_500000'', userId = ''addrB'', amount = 1/4, fee = 0,
         status = PENDING, transactionId = None, payoutTimestamp = 1000, processedAt = None\<rparr>"

definition p2 :: Payout where
  "p2 = \<lparr>payout_id = ''payout_1002_750000'', userId = ''addrA'', amount = 1/8, fee = 0,
         status = PENDING, transactionId = None, payoutTimestamp = 1002, processedAt = None\<rparr>"


text \<open>
  Two payouts are created in the same millisecond with the same outcome of the random
  expression; two payout runs follow.
\<close>

definition collidingOps :: "operation list" where
  "collidingOps =
     [CreatePayout ''addrA'' (1/2) 1000 250000,
      CreatePayout ''addrB'' (1/4) 1000 250000,
      ProcessPayouts (\<lambda>k. okNode) 2000,
      ProcessPayouts (\<lambda>k. okNode) 3000]"

text \<open>A listener of \<open>payout:completed\<close> that throws, as a notification over a closed socket does.\<close>

definition throwingListener :: "payout_event \<Rightarrow> thrown option" where
  "throwingListener ev =
     (case ev of PayoutCompleted payout \<Rightarrow> Some (JsError ''socket closed'') | _ \<Rightarrow> None)"

section \<open>Stratum server (StratumServer and StratumClient in src/server/routes-fixed.ts)\<close>

text \<open>
  Values received from a miner are dynamically typed: \<open>jsval\<close> is what \<open>JSON.parse\<close> can
  return, plus \<open>undefined\<close>. \<open>JSON.parse\<close> itself is a parameter \<open>parse\<close> of the model
  (\<open>Inl\<close> is its \<open>SyntaxError\<close>). A session is addressed by its client id
  (\<open>remoteAddress:remotePort\<close>), the key of the \<open>clients\<close> map; the map keeps insertion
  order. The readings of the clock and of \<open>Math.random()\<close> are parameters. The field
  \<open>id\<close> of a client is \<open>client_id\<close> here, the server's \<open>difficulty\<close> is
  \<open>serverDifficulty\<close>, and \<open>written\<close> collects what was written to the socket.
\<close>

datatype jsval =
    JUndefined
  | JNull
  | JBool bool
  | JNum real
  | JStr string
  | JArr "jsval list"
  | JObj "(string \<times> jsval) list"

datatype wire =
    Response nat jsval
  | Notification string "jsval list"

record StratumClient =
  client_id :: string
  remoteAddress :: "string option"
  extraNonce1 :: string
  extraNonce2Size :: nat
  isSubscribed :: bool
  isAuthorized :: bool
  username :: jsval
  isConnected :: bool
  lastActivity :: int
  buffer :: string
  messageId :: nat
  written :: "wire list"

record BlockTemplate =
  previousblockhash :: string
  height :: nat
  curtime :: nat

record ShareData =
  sd_workerId :: jsval
  sd_ip :: string
  sd_timestamp :: int
  sd_difficulty :: real
  sd_isValid :: bool

datatype server_event =
    WorkerConnected jsval string int
  | ShareSubmitted ShareData
  | BlockFound jsval "nat option" string int
  | WorkerDisconnected jsval string int

record StratumServer =
  clients :: "(string \<times> StratumClient) list"
  serverDifficulty :: real
  jobId :: nat
  currentBlockTemplate :: "BlockTemplate option"
  serverEmitted :: "server_event list"
  submittedBlocks :: "string list"

record Env =
  env_now :: int
  env_random1 :: real
  env_random2 :: real

definition createStratumServer :: StratumServer where
  "createStratumServer =
     \<lparr>clients = [], serverDifficulty = 1, jobId = 0, currentBlockTemplate = None,
      serverEmitted = [], submittedBlocks = []\<rparr>"

subsection \<open>StratumClient\<close>

definition send :: "wire \<Rightarrow> StratumClient \<Rightarrow> StratumClient" where
  "send data c = (if isConnected c then c\<lparr>written := written c @ [data]\<rparr> else c)"

definition sendResponse :: "jsval \<Rightarrow> StratumClient \<Rightarrow> StratumClient" where
  "sendResponse result c = send (Response (messageId c) result) (c\<lparr>messageId := messageId c + 1\<rparr>)"

definition sendNotification :: "string \<Rightarrow> jsval list \<Rightarrow> StratumClient \<Rightarrow> StratumClient" where
  "sendNotification method params c = send (Notification method params) c"

definition start :: "StratumClient \<Rightarrow> StratumClient" where
  "start c = sendNotification ''mining.set_difficulty'' [JNum 8] c"

definition sendSubscriptionResponse :: "string \<Rightarrow> nat \<Rightarrow> StratumClient \<Rightarrow> StratumClient" where
  "sendSubscriptionResponse en1 en2Size c =
     sendResponse
       (JArr [JArr [JArr [JStr ''mining.set_difficulty'', JStr ''1''],
                    JArr [JStr ''mining.notify'', JStr ''1'']],
              JStr en1, JNum (real en2Size)]) c"

definition authorize :: "bool \<Rightarrow> jsval \<Rightarrow> StratumClient \<Rightarrow> StratumClient" where
  "authorize authorized uname c =
     sendResponse (JBool authorized) (c\<lparr>isAuthorized := authorized, username := uname\<rparr>)"

definition shareResponse :: "bool \<Rightarrow> StratumClient \<Rightarrow> StratumClient" where
  "shareResponse accepted c = sendResponse (JBool accepted) c"

definition sendJob :: "jsval list \<Rightarrow> StratumClient \<Rightarrow> StratumClient" where
  "sendJob params c = sendNotification ''mining.notify'' params c"

definition getIp :: "StratumClient \<Rightarrow> string" where
  "getIp c = (case remoteAddress c of
                None \<Rightarrow> ''unknown''
              | Some a \<Rightarrow> if a = [] then ''unknown'' else a)"

subsection \<open>StratumServer\<close>

text \<open>\<open>crypto.randomBytes(4).toString('hex')\<close>; \<open>bytes\<close> is the outcome of the generator.\<close>

definition hexOfByte :: "8 word \<Rightarrow> string" where
  "hexOfByte b = [''0123456789abcdef'' ! (unat b div 16), ''0123456789abcdef'' ! (unat b mod 16)]"

definition generateExtraNonce1 :: "8 word list \<Rightarrow> string" where
  "generateExtraNonce1 bytes = concat (map hexOfByte bytes)"

definition withClient :: "string \<Rightarrow> (StratumClient \<Rightarrow> StratumClient) \<Rightarrow> StratumServer \<Rightarrow> StratumServer" where
  "withClient cid f srv =
     (case map_of (clients srv) cid of
        None \<Rightarrow> srv
      | Some c \<Rightarrow> srv\<lparr>clients := AList.update cid (f c) (clients srv)\<rparr>)"

definition handleConnection ::
  "string \<Rightarrow> nat \<Rightarrow> int \<Rightarrow> 8 word list \<Rightarrow> StratumServer \<Rightarrow> StratumServer" where
  "handleConnection addr port now bytes srv =
     (let clientId = addr @ '':'' @ toString port;
          en1 = generateExtraNonce1 bytes;
          client = \<lparr>client_id = clientId, remoteAddress = Some addr, extraNonce1 = en1,
                    extraNonce2Size = 4, isSubscribed = False, isAuthorized = False,
                    username = JStr [], isConnected = True, lastActivity = now, buffer = [],
                    messageId = 1, written = []\<rparr>
      in srv\<lparr>clients := AList.update clientId (start client) (clients srv)\<rparr>)"

definition createJobParams :: "StratumServer \<Rightarrow> BlockTemplate \<Rightarrow> jsval list" where
  "createJobParams srv t =
     [JStr (toString (jobId srv)),
      JStr (previousblockhash t),
      JStr ''01000000010000000000000000000000000000000000000000000000000000000000000000'',
      JStr ''0000000000000000000000000000000000000000000000000000000000000000'',
      JArr [JStr ''51c3d0c6072ff0354d37b9f71850f8764e34bac2671362279495a7f1be2f55f7''],
      JStr ''00000002'',
      JStr ''1a44b9f2'',
      JNum (real (curtime t)),
      JBool False]"

definition handleSubscription :: "string \<Rightarrow> StratumServer \<Rightarrow> StratumServer" where
  "handleSubscription cid srv =
     (let srv1 = withClient cid (\<lambda>c. sendSubscriptionResponse (extraNonce1 c) 4 c) srv
      in case currentBlockTemplate srv1 of
           None \<Rightarrow> srv1
         | Some t \<Rightarrow> withClient cid (sendJob (createJobParams srv1 t)) srv1)"

definition handleAuthorization :: "string \<Rightarrow> jsval \<Rightarrow> jsval \<Rightarrow> int \<Rightarrow> StratumServer \<Rightarrow> StratumServer" where
  "handleAuthorization cid uname password now srv =
     (case map_of (clients srv) cid of
        None \<Rightarrow> srv
      | Some c \<Rightarrow>
          let srv1 = withClient cid (authorize True uname) srv
          in srv1\<lparr>serverEmitted := serverEmitted srv1 @ [WorkerConnected uname (getIp c) now]\<rparr>)"

text \<open>
  \<open>validateShare\<close> reads only the job id of its arguments; \<open>r\<close> is the outcome of
  \<open>Math.random()\<close> that stands in for the proof-of-work check.
\<close>

definition validateShare :: "StratumServer \<Rightarrow> jsval \<Rightarrow> real \<Rightarrow> bool" where
  "validateShare srv jobIdParam r =
     (if jobIdParam \<noteq> JStr (toString (jobId srv)) then False else r > 0.05)"

definition checkBlockSolution :: "real \<Rightarrow> bool" where
  "checkBlockSolution r \<longleftrightarrow> r < 0.001"

text \<open>
  Array destructuring \<open>const [a, b, ...] = v\<close> with \<open>n\<close> targets: arrays and strings are
  iterable, missing elements are \<open>undefined\<close>, anything else throws a \<open>TypeError\<close>.
\<close>

definition destructure :: "jsval \<Rightarrow> nat \<Rightarrow> thrown + jsval list" where
  "destructure v n =
     (case v of
        JArr xs \<Rightarrow> Inr (take n xs @ replicate (n - length xs) JUndefined)
      | JStr s \<Rightarrow> Inr (take n (map (\<lambda>ch. JStr [ch]) s) @ replicate (n - length s) JUndefined)
      | _ \<Rightarrow> Inl (JsError ''TypeError''))"

definition handleSubmit :: "string \<Rightarrow> jsval \<Rightarrow> Env \<Rightarrow> StratumServer \<Rightarrow> thrown + StratumServer" where
  "handleSubmit cid params env srv =
     (case map_of (clients srv) cid of
        None \<Rightarrow> Inr srv
      | Some c \<Rightarrow>
          (case destructure params 5 of
             Inl e \<Rightarrow> Inl e
           | Inr ps \<Rightarrow>
               let workername = ps ! 0;
                   jobIdParam = ps ! 1;
                   isValid = validateShare srv jobIdParam (env_random1 env);
                   shareData = \<lparr>sd_workerId = workername, sd_ip = getIp c,
                                 sd_timestamp = env_now env,
                                 sd_difficulty = serverDifficulty srv, sd_isValid = isValid\<rparr>;
                   srv1 = srv\<lparr>serverEmitted := serverEmitted srv @ [ShareSubmitted shareData]\<rparr>;
                   srv2 = withClient cid (shareResponse isValid) srv1
               in if isValid \<and> checkBlockSolution (env_random2 env)
                  then Inr (srv2\<lparr>submittedBlocks :=
                                   submittedBlocks srv2 @ [''block_hex_would_be_constructed_here''],
                                 serverEmitted := serverEmitted srv2 @
                                   [BlockFound workername (map_option height (currentBlockTemplate srv2))
                                      ''block_hash_would_be_here'' (env_now env)]\<rparr>)
                  else Inr srv2))"

definition handleDisconnect :: "string \<Rightarrow> int \<Rightarrow> StratumServer \<Rightarrow> StratumServer" where
  "handleDisconnect cid now srv =
     (case map_of (clients srv) cid of
        None \<Rightarrow> srv
      | Some c \<Rightarrow>
          srv\<lparr>clients := AList.delete cid (clients srv),
              serverEmitted := serverEmitted srv @ [WorkerDisconnected (username c) (getIp c) now]\<rparr>)"

definition broadcastJob :: "StratumServer \<Rightarrow> BlockTemplate \<Rightarrow> StratumServer" where
  "broadcastJob srv t =
     srv\<lparr>clients := map (\<lambda>(cid, c). (cid, if isSubscribed c then sendJob (createJobParams srv t) c else c))
                        (clients srv)\<rparr>"

text \<open>The two pollers; the argument is what the node answered (\<open>Inl\<close>: the call threw).\<close>

definition pollBlockTemplate :: "thrown + BlockTemplate \<Rightarrow> StratumServer \<Rightarrow> StratumServer" where
  "pollBlockTemplate answer srv =
     (case answer of
        Inl e \<Rightarrow> srv
      | Inr blockTemplate \<Rightarrow>
          if currentBlockTemplate srv = None
             \<or> map_option previousblockhash (currentBlockTemplate srv)
                  \<noteq> Some (previousblockhash blockTemplate)
          then broadcastJob (srv\<lparr>currentBlockTemplate := Some blockTemplate, jobId := jobId srv + 1\<rparr>)
                 blockTemplate
          else srv)"


subsection \<open>Message handling\<close>

text \<open>Property access \<open>v.key\<close> on a parsed value.\<close>

definition getProp :: "jsval \<Rightarrow> string \<Rightarrow> thrown + jsval" where
  "getProp v key =
     (case v of
        JNull \<Rightarrow> Inl (JsError ''TypeError'')
      | JUndefined \<Rightarrow> Inl (JsError ''TypeError'')
      | JObj kvs \<Rightarrow> Inr (case map_of kvs key of None \<Rightarrow> JUndefined | Some x \<Rightarrow> x)
      | _ \<Rightarrow> Inr JUndefined)"

text \<open>
  \<open>handleMessage\<close>: everything inside the \<open>try\<close> block that throws (the parser, a property
  access, a destructuring, a handler called through \<open>emit\<close>) ends in the \<open>catch\<close> block,
  which only logs.
\<close>

definition handleMessage ::
  "(string \<Rightarrow> thrown + jsval) \<Rightarrow> Env \<Rightarrow> string \<Rightarrow> string \<Rightarrow> StratumServer \<Rightarrow> StratumServer" where
  "handleMessage parse env message cid srv =
     (case parse message of
        Inl e \<Rightarrow> srv
      | Inr parsed \<Rightarrow>
          (case getProp parsed ''method'' of
             Inl e \<Rightarrow> srv
           | Inr method \<Rightarrow>
               if method = JStr ''mining.subscribe''
               then handleSubscription cid (withClient cid (\<lambda>c. c\<lparr>isSubscribed := True\<rparr>) srv)
               else if method = JStr ''mining.authorize''
               then (case getProp parsed ''params'' of
                       Inl e \<Rightarrow> srv
                     | Inr params \<Rightarrow>
                         (case destructure params 2 of
                            Inl e \<Rightarrow> srv
                          | Inr ps \<Rightarrow> handleAuthorization cid (ps ! 0) (ps ! 1) (env_now env) srv))
               else if method = JStr ''mining.submit''
               then (case getProp parsed ''params'' of
                       Inl e \<Rightarrow> srv
                     | Inr params \<Rightarrow>
                         (case handleSubmit cid params env srv of
                            Inl e \<Rightarrow> srv
                          | Inr srv1 \<Rightarrow> srv1))
               else srv))"

text \<open>\<open>String.prototype.indexOf\<close> for one character; \<open>None\<close> is -1.\<close>

fun indexOf :: "char \<Rightarrow> string \<Rightarrow> nat option" where
  "indexOf ch [] = None"
| "indexOf ch (x # xs) = (if x = ch then Some 0 else map_option Suc (indexOf ch xs))"

definition newline :: char where
  "newline = CHR 0x0A"

text \<open>
  \<open>message.trim()\<close> is falsy when the line has white-space characters only (the ASCII
  ones here; a line of other white space goes to the parser, which rejects it).
\<close>

definition isBlank :: "string \<Rightarrow> bool" where
  "isBlank message \<longleftrightarrow>
     list_all (\<lambda>ch. ch \<in> set [CHR 0x09, CHR 0x0A, CHR 0x0B, CHR 0x0C, CHR 0x0D, CHR '' '']) message"

text \<open>
  The loop of \<open>handleData\<close>, which cuts complete lines off the buffer: the lines and the
  rest that stays in the buffer.
\<close>

function splitLines :: "string \<Rightarrow> string list \<times> string" where
  "splitLines buf =
     (case indexOf newline buf of
        None \<Rightarrow> ([], buf)
      | Some newlineIndex \<Rightarrow>
          (let (ls, rest) = splitLines (drop (newlineIndex + 1) buf)
           in (take newlineIndex buf # ls, rest)))"
  by pat_completeness auto
termination
proof (relation "measure length")
  show "wf (measure length)" by simp
next
  fix buf :: string and i
  assume "indexOf newline buf = Some i"
  then have "buf \<noteq> []" by (cases buf) auto
  then show "(drop (i + 1) buf, buf) \<in> measure length" by simp
qed

declare splitLines.simps [simp del]

text \<open>
  The complete lines of one chunk are handled in order; \<open>envs k\<close> holds the clock and
  random readings during line number \<open>k\<close>.
\<close>

fun handleLines ::
  "(string \<Rightarrow> thrown + jsval) \<Rightarrow> (nat \<Rightarrow> Env) \<Rightarrow> nat \<Rightarrow> string list \<Rightarrow> string \<Rightarrow> StratumServer
     \<Rightarrow> StratumServer" where
  "handleLines parse envs k [] cid srv = srv"
| "handleLines parse envs k (message # rest) cid srv =
     handleLines parse envs (Suc k) rest cid
       (if isBlank message then srv else handleMessage parse (envs k) message cid srv)"

definition handleData ::
  "(string \<Rightarrow> thrown + jsval) \<Rightarrow> (nat \<Rightarrow> Env) \<Rightarrow> int \<Rightarrow> string \<Rightarrow> string \<Rightarrow> StratumServer
     \<Rightarrow> StratumServer" where
  "handleData parse envs now data cid srv =
     (case map_of (clients srv) cid of
        None \<Rightarrow> srv
      | Some c \<Rightarrow>
          let (ls, rest) = splitLines (buffer c @ data);
              srv1 = withClient cid (\<lambda>c. c\<lparr>lastActivity := now, buffer := rest\<rparr>) srv
          in handleLines parse envs 0 ls cid srv1)"

text \<open>The sessions that are open, with their extraNonce1.\<close>

definition openNonces :: "StratumServer \<Rightarrow> string list" where
  "openNonces srv = map (\<lambda>(cid, c). extraNonce1 c) (filter (\<lambda>(cid, c). isConnected c) (clients srv))"

text \<open>Two templates for the scenarios.\<close>

definition templateA :: BlockTemplate where
  "templateA = \<lparr>previousblockhash = ''00aa'', height = 800000, curtime = 1700000000\<rparr>"

definition templateB :: BlockTemplate where
  "templateB = \<lparr>previousblockhash = ''00bb'', height = 800001, curtime = 1700000600\<rparr>"

definition exampleServer :: StratumServer where
  "exampleServer =
     pollBlockTemplate (Inr templateB)
       (pollBlockTemplate (Inr templateA)
          (handleConnection ''10.0.0.1'' 4001 1000 [0xde, 0xad, 0xbe, 0xef] createStratumServer))"

text \<open>Two connections for which the generator returns the same four bytes.\<close>

definition twoSessions :: StratumServer where
  "twoSessions =
     handleConnection ''10.0.0.2'' 4002 2000 [0xde, 0xad, 0xbe, 0xef]
       (handleConnection ''10.0.0.1'' 4001 1000 [0xde, 0xad, 0xbe, 0xef] createStratumServer)"

definition exampleClient :: StratumClient where
  "exampleClient =
     \<lparr>client_id = ''10.0.0.1:4001'', remoteAddress = Some ''10.0.0.1'',
      extraNonce1 = ''deadbeef'', extraNonce2Size = 4, isSubscribed = False,
      isAuthorized = False, username = JStr [], isConnected = True, lastActivity = 1000,
      buffer = [], messageId = 1,
      written = [Notification ''mining.set_difficulty'' [JNum 8]]\<rparr>"

text \<open>A stand-in for the parser on three lines, a submission and its readings.\<close>

definition exampleParse :: "string \<Rightarrow> thrown + jsval" where
  "exampleParse message =
     (if message = ''subscribe-line'' then Inr (JObj [(''method'', JStr ''mining.subscribe'')])
      else if message = ''ping-line'' then Inr (JObj [(''method'', JStr ''mining.ping'')])
      else Inl (JsError ''SyntaxError''))"

definition exampleSubmit :: "string \<Rightarrow> jsval" where
  "exampleSubmit job = JArr [JStr ''worker1'', JStr job, JStr ''00000000'', JStr ''5f5e1000'', JStr ''1a2b3c4d'']"

definition exampleEnv :: Env where
  "exampleEnv = \<lparr>env_now = 3000, env_random1 = 1/2, env_random2 = 1/2\<rparr>"

section \<open>Wiring of the components (startup code in src/setup.sh)\<close>




section \<open>Properties of the share accounting\<close>

lemma foldl_add_difficulty:
  "foldl (\<lambda>sum share. sum + difficulty share) a xs = a + sum_list (map difficulty xs)"
  by (induction xs arbitrary: a) simp_all

lemma sumDifficulty_sum_list: "sumDifficulty xs = sum_list (map difficulty xs)"
  by (simp add: sumDifficulty_def foldl_add_difficulty)

lemma proto_key_in_list: "''__proto__'' \<in> set objectPrototypeKeys"
  by (simp add: objectPrototypeKeys_def)

lemma setProp_update: "k \<notin> set objectPrototypeKeys \<Longrightarrow> setProp k v obj = AList.update k v obj"
  using proto_key_in_list by (auto simp: setProp_def)

lemma lookupProp_plain:
  "k \<notin> set objectPrototypeKeys \<Longrightarrow>
   lookupProp obj k = (case map_of obj k of Some v \<Rightarrow> Own v | None \<Rightarrow> Missing)"
  by (simp add: lookupProp_def)

lemma groupShare_plain:
  assumes "workerId s \<notin> set objectPrototypeKeys"
  shows "groupShare ws s = Inr (groupStep ws s)"
  using assms
  by (simp add: groupShare_def groupStep_def sharesOf_def lookupProp_plain setProp_update
        Let_def update_conv' split: option.splits)

lemma groupShare_inherited:
  assumes "workerId s \<in> set objectPrototypeKeys" and "map_of ws (workerId s) = None"
  shows "groupShare ws s = Inl (JsError ''workerShares[share.workerId].push is not a function'')"
  using assms by (simp add: groupShare_def lookupProp_def Let_def)

lemma groupByWorkerFrom_plain:
  "\<forall>s\<in>set xs. workerId s \<notin> set objectPrototypeKeys \<Longrightarrow>
   groupByWorkerFrom ws xs = Inr (foldl groupStep ws xs)"
  by (induction xs arbitrary: ws) (simp_all add: groupShare_plain)

lemma map_of_groupStep:
  "map_of (groupStep ws s) w =
     (if w = workerId s then Some (sharesOf ws w @ [s]) else map_of ws w)"
  by (simp add: groupStep_def update_conv')

lemma distinct_groupStep:
  "distinct (map fst ws) \<Longrightarrow> distinct (map fst (groupStep ws s))"
  by (simp add: groupStep_def distinct_update)

lemma distinct_foldl_groupStep:
  "distinct (map fst ws) \<Longrightarrow> distinct (map fst (foldl groupStep ws xs))"
  by (induction xs arbitrary: ws) (simp_all add: distinct_groupStep)

lemma map_of_foldl_groupStep:
  "map_of (foldl groupStep ws xs) w =
     (if map_of ws w = None \<and> w \<notin> workerId ` set xs then None
      else Some (sharesOf ws w @ filter (\<lambda>s. workerId s = w) xs))"
proof (induction xs arbitrary: ws)
  case Nil
  then show ?case by (simp add: sharesOf_def split: option.splits)
next
  case (Cons x xs)
  show ?case
    by (simp add: Cons.IH map_of_groupStep sharesOf_def)
qed

lemma groupsTotal_update:
  "groupsTotal (AList.update k (sharesOf ws k @ [s]) ws) = groupsTotal ws + difficulty s"
proof (induction ws)
  case Nil
  then show ?case by (simp add: groupsTotal_def sharesOf_def sumDifficulty_sum_list)
next
  case (Cons p ws)
  obtain k' l where p: "p = (k', l)" by (cases p)
  show ?case
  proof (cases "k' = k")
    case True
    then show ?thesis
      by (simp add: p groupsTotal_def sharesOf_def sumDifficulty_sum_list)
  next
    case False
    then have "sharesOf (p # ws) k = sharesOf ws k"
      by (simp add: p sharesOf_def)
    with False Cons.IH show ?thesis
      by (simp add: p groupsTotal_def)
  qed
qed

lemma groupsTotal_foldl:
  "groupsTotal (foldl groupStep ws xs) = groupsTotal ws + sumDifficulty xs"
  by (induction xs arbitrary: ws)
     (simp_all add: groupStep_def groupsTotal_update sumDifficulty_sum_list)

lemma update_fresh: "k \<notin> fst ` set al \<Longrightarrow> AList.update k v al = al @ [(k, v)]"
  by (induction al) auto

lemma rewards_foldl:
  "distinct (map fst ws) \<Longrightarrow> fst ` set acc \<inter> fst ` set ws = {} \<Longrightarrow>
   \<forall>k\<in>fst ` set ws. k \<notin> set objectPrototypeKeys \<Longrightarrow>
   foldl (\<lambda>rewards (w, l). setProp w (f l) rewards) acc ws
     = acc @ map (\<lambda>(w, l). (w, f l)) ws"
proof (induction ws arbitrary: acc)
  case Nil
  then show ?case by simp
next
  case (Cons p ws)
  obtain k l where p: "p = (k, l)" by (cases p)
  from Cons.prems have fresh: "k \<notin> fst ` set acc" by (auto simp: p)
  from Cons.prems have plain: "k \<notin> set objectPrototypeKeys" by (simp add: p)
  have "fst ` set (acc @ [(k, f l)]) \<inter> fst ` set ws = {}"
    using Cons.prems by (auto simp: p)
  moreover have "distinct (map fst ws)" using Cons.prems by simp
  moreover have "\<forall>k\<in>fst ` set ws. k \<notin> set objectPrototypeKeys" using Cons.prems by simp
  ultimately show ?case
    using Cons.IH [of "acc @ [(k, f l)]"]
    by (simp add: p setProp_update [OF plain] update_fresh [OF fresh])
qed

lemma filter_pool_worker:
  "filter (\<lambda>s. workerId s = w) (getPoolValidShares shares a b) = getWorkerValidShares shares w a b"
  by (auto simp: getPoolValidShares_def getWorkerValidShares_def intro: filter_cong)

lemma groups_lookup:
  "map_of (foldl groupStep [] xs) w =
     (if w \<in> workerId ` set xs then Some (filter (\<lambda>s. workerId s = w) xs) else None)"
  by (simp add: map_of_foldl_groupStep sharesOf_def)

lemma groups_keys: "fst ` set (foldl groupStep [] xs) = workerId ` set xs"
proof -
  have "w \<notin> fst ` set (foldl groupStep [] xs) \<longleftrightarrow> w \<notin> workerId ` set xs" for w
    unfolding map_of_eq_None_iff [symmetric] groups_lookup by simp
  then show ?thesis by blast
qed

lemma groups_distinct: "distinct (map fst (foldl groupStep [] xs))"
  by (simp add: distinct_foldl_groupStep)

lemma groups_total: "groupsTotal (foldl groupStep [] xs) = sumDifficulty xs"
proof -
  have "groupsTotal [] = 0" by (simp add: groupsTotal_def)
  then show ?thesis by (simp add: groupsTotal_foldl)
qed

lemma rewards_of_groups:
  assumes "\<forall>s\<in>set xs. workerId s \<notin> set objectPrototypeKeys"
  shows "foldl (\<lambda>rewards (w, l). setProp w (f l) rewards) [] (foldl groupStep [] xs)
     = map (\<lambda>(w, l). (w, f l)) (foldl groupStep [] xs)"
proof -
  have "\<forall>k\<in>fst ` set (foldl groupStep [] xs). k \<notin> set objectPrototypeKeys"
    using assms by (auto simp: groups_keys)
  from rewards_foldl [OF groups_distinct _ this, of "[]" f] show ?thesis by simp
qed

lemma map_of_rewards:
  "map_of (map (\<lambda>(w, l). (w, f l)) ws) w = map_option f (map_of ws w)"
  by (induction ws) auto

lemma sum_rewards:
  "sum_list (map snd (map (\<lambda>(w, l). (w, workerReward r t l)) ws)) = r * (groupsTotal ws / t)"
  by (induction ws) (auto simp: groupsTotal_def workerReward_def algebra_simps add_divide_distrib)

text \<open>
  Where no worker of the window bears the name of an inherited member and the window's
  difficulty total is not zero, the split is the proportional one: every worker of the
  window is credited its part of the reward after the fee, nobody else has an entry,
  and the parts add up to the reward after the fee.
\<close>

lemma calculateBlockRewards_plain_names:
  assumes total: "sumDifficulty (rewardWindow sp now) \<noteq> 0"
    and plain: "\<forall>s\<in>set (rewardWindow sp now). workerId s \<notin> set objectPrototypeKeys"
  shows "\<exists>ev. calculateBlockRewards sp blockShare now = Some ev
     \<and> rc_poolFee ev = blockReward sp * poolFeePercent sp / 100
     \<and> (\<forall>w. map_of (rc_workerRewards ev) w =
           (if w \<in> workerId ` set (rewardWindow sp now)
            then Some ((blockReward sp - blockReward sp * poolFeePercent sp / 100) *
                   (sumDifficulty (getWorkerValidShares (storage sp) w (now - 60 * 60 * 1000) now)
                      / sumDifficulty (rewardWindow sp now)))
            else None))
     \<and> distinct (map fst (rc_workerRewards ev))
     \<and> sum_list (map snd (rc_workerRewards ev)) = blockReward sp - rc_poolFee ev"
proof -
  let ?win = "getPoolValidShares (storage sp) (now - 3600000) now"
  let ?fee = "blockReward sp * (poolFeePercent sp / 100)"
  let ?r = "blockReward sp - ?fee"
  let ?t = "sumDifficulty ?win"
  let ?groups = "foldl groupStep [] ?win"
  let ?rewards = "map (\<lambda>(w, l). (w, workerReward ?r ?t l)) ?groups"
  let ?ev = "\<lparr>rc_blockHeight = blockHeight blockShare, rc_blockHash = blockHash blockShare,
              rc_totalReward = blockReward sp, rc_poolFee = ?fee,
              rc_workerRewards = ?rewards, rc_timestamp = now\<rparr>"
  from total have t: "?t \<noteq> 0" by (simp add: rewardWindow_def)
  then have nonempty: "?win \<noteq> []" by (auto simp: sumDifficulty_def)
  from plain have plain': "\<forall>s\<in>set ?win. workerId s \<notin> set objectPrototypeKeys"
    by (simp add: rewardWindow_def)
  have groups: "groupByWorker ?win = Inr ?groups"
    using plain' by (simp add: groupByWorker_def groupByWorkerFrom_plain)
  have run: "calculateBlockRewards sp blockShare now = Some ?ev"
    using nonempty
    by (simp add: calculateBlockRewards_def Let_def groups rewards_of_groups [OF plain'])
  have lookup: "map_of ?rewards w =
           (if w \<in> workerId ` set ?win
            then Some (?r * (sumDifficulty (getWorkerValidShares (storage sp) w (now - 3600000) now) / ?t))
            else None)" for w
    by (simp add: map_of_rewards groups_lookup filter_pool_worker workerReward_def)
  have dist: "distinct (map fst ?rewards)"
    using groups_distinct [of ?win] by (simp add: comp_def case_prod_unfold)
  have sum: "sum_list (map snd ?rewards) = ?r"
    using t by (simp only: sum_rewards groups_total) simp
  show ?thesis
    using run lookup dist sum by (simp add: rewardWindow_def)
qed

text \<open>
  The scenario of the specification: fee 1 percent, block reward 6.25, difficulty sums
  300 and 100.
\<close>

lemma calculateBlockRewards_scenario:
  "\<exists>ev. calculateBlockRewards exampleProcessor (last exampleShares) 4000000 = Some ev
      \<and> rc_poolFee ev = 0.0625
      \<and> map_of (rc_workerRewards ev) ''minerA'' = Some 4.640625
      \<and> map_of (rc_workerRewards ev) ''minerB'' = Some 1.546875
      \<and> map_of (rc_workerRewards ev) ''minerC'' = None
      \<and> sum_list (map snd (rc_workerRewards ev)) = 6.1875"
proof -
  have win: "rewardWindow exampleProcessor 4000000
               = [exampleShares ! 0, exampleShares ! 2, exampleShares ! 4]"
    by (simp add: rewardWindow_def exampleProcessor_def exampleShares_def
          getPoolValidShares_def createShareProcessor_def)
  have total: "sumDifficulty (rewardWindow exampleProcessor 4000000) = 400"
    by (simp add: win sumDifficulty_def exampleShares_def)
  have a: "sumDifficulty (getWorkerValidShares (storage exampleProcessor) ''minerA''
             (4000000 - 60 * 60 * 1000) 4000000) = 300"
    by (simp add: getWorkerValidShares_def sumDifficulty_def exampleProcessor_def
          exampleShares_def createShareProcessor_def)
  have b: "sumDifficulty (getWorkerValidShares (storage exampleProcessor) ''minerB''
             (4000000 - 60 * 60 * 1000) 4000000) = 100"
    by (simp add: getWorkerValidShares_def sumDifficulty_def exampleProcessor_def
          exampleShares_def createShareProcessor_def)
  have ws: "workerId ` set (rewardWindow exampleProcessor 4000000) = {''minerA'', ''minerB''}"
    by (auto simp: win exampleShares_def)
  have params: "blockReward exampleProcessor = 6.25" "poolFeePercent exampleProcessor = 1"
    by (simp_all add: exampleProcessor_def createShareProcessor_def)
  have nz: "sumDifficulty (rewardWindow exampleProcessor 4000000) \<noteq> 0"
    by (simp add: total)
  have plain: "\<forall>s\<in>set (rewardWindow exampleProcessor 4000000).
                 workerId s \<notin> set objectPrototypeKeys"
    by (simp add: win exampleShares_def objectPrototypeKeys_def)
  from calculateBlockRewards_plain_names [OF nz plain, of "last exampleShares"]
  obtain ev where ev: "calculateBlockRewards exampleProcessor (last exampleShares) 4000000 = Some ev"
    and fee: "rc_poolFee ev = blockReward exampleProcessor * poolFeePercent exampleProcessor / 100"
    and lk: "\<And>w. map_of (rc_workerRewards ev) w =
           (if w \<in> workerId ` set (rewardWindow exampleProcessor 4000000)
            then Some ((blockReward exampleProcessor
                         - blockReward exampleProcessor * poolFeePercent exampleProcessor / 100) *
                   (sumDifficulty (getWorkerValidShares (storage exampleProcessor) w
                       (4000000 - 60 * 60 * 1000) 4000000)
                      / sumDifficulty (rewardWindow exampleProcessor 4000000)))
            else None)"
    and sm: "sum_list (map snd (rc_workerRewards ev)) = blockReward exampleProcessor - rc_poolFee ev"
    by blast
  have "map_of (rc_workerRewards ev) ''minerA'' = Some 4.640625"
    by (simp only: lk ws a total params) simp
  moreover have "map_of (rc_workerRewards ev) ''minerB'' = Some 1.546875"
    by (simp only: lk ws b total params) simp
  moreover have "map_of (rc_workerRewards ev) ''minerC'' = None"
    by (simp only: lk ws) simp
  moreover have "rc_poolFee ev = 0.0625" by (simp add: fee params)
  moreover have "sum_list (map snd (rc_workerRewards ev)) = 6.1875"
    by (simp add: sm fee params)
  ultimately show ?thesis using ev by blast
qed

text \<open>
  Claim C1, at a ledger in which a miner has chosen the worker name \<open>constructor\<close>: the
  window holds valid shares of difficulty 400 in all, 300 of them miner A's, and a share
  that found a block is processed; the grouping loop throws, and no
  \<open>reward:calculated\<close> event is emitted, so nobody is credited anything.
\<close>

theorem calculateBlockRewards_inherited_name:
  "sumDifficulty (getPoolValidShares inheritedNameShares (4000000 - 60 * 60 * 1000) 4000000) = 400
   \<and> sumDifficulty (getWorkerValidShares inheritedNameShares ''minerA''
        (4000000 - 60 * 60 * 1000) 4000000) = 300
   \<and> isBlock (last inheritedNameShares) = Some True
   \<and> calculateBlockRewards (createShareProcessor\<lparr>storage := inheritedNameShares\<rparr>)
        (last inheritedNameShares) 4000000 = None
   \<and> snd (processShare (createShareProcessor\<lparr>storage := butlast inheritedNameShares\<rparr>)
            (last inheritedNameShares) 4000000)
       = [HashrateUpdatedEv \<lparr>hu_workerId = ''minerA'', hu_hashrate = 200 * 4295000000 / 600,
                             hu_shares = 1, hu_timestamp = 4000000\<rparr>,
          ShareProcessedEv ''minerA'' True 200 3900000]"
  by (simp add: inheritedNameShares_def createShareProcessor_def processShare_def saveShare_def
        calculateBlockRewards_def calculateHashrates_def getPoolValidShares_def
        getWorkerValidShares_def sumDifficulty_def groupByWorker_def groupShare_def
        lookupProp_def setProp_def objectPrototypeKeys_def Let_def)

lemma hashrate_window_seconds: "real_of_int (now - (now - 10 * 60 * 1000)) / 1000 = 600"
  by simp

lemma calculateHashrates_eq:
  "calculateHashrates sp w now =
     (let shares = getWorkerValidShares (storage sp) w (now - 10 * 60 * 1000) now
      in if shares = [] then None
         else Some \<lparr>hu_workerId = w, hu_hashrate = sumDifficulty shares * 4295000000 / 600,
                    hu_shares = length shares, hu_timestamp = now\<rparr>)"
  by (simp add: calculateHashrates_def Let_def)

lemma calculatePoolHashrate_eq:
  "calculatePoolHashrate sp now =
     (let shares = getPoolValidShares (storage sp) (now - 10 * 60 * 1000) now
      in if shares = [] then 0 else sumDifficulty shares * 4295000000 / 600)"
  by (simp add: calculatePoolHashrate_def Let_def)

text \<open>
  Claim C8, as stated, at a concrete ledger: after miner A's valid share of difficulty
  200 the emitted hashrate is not \<open>200 * 2^32 / 600\<close>.
\<close>

theorem hashrate_two_pow_32_counterexample:
  "hd (snd (processShare (createShareProcessor\<lparr>storage := butlast exampleShares\<rparr>)
              (last exampleShares) 4000000))
     = HashrateUpdatedEv \<lparr>hu_workerId = ''minerA'', hu_hashrate = 200 * 4295000000 / 600,
                           hu_shares = 1, hu_timestamp = 4000000\<rparr>
   \<and> sumDifficulty (getWorkerValidShares exampleShares ''minerA'' (4000000 - 10 * 60 * 1000) 4000000)
       = 200
   \<and> (200 * 4295000000 / 600 :: real) \<noteq> 200 * 2 ^ 32 / 600"
  by (simp add: processShare_def calculateHashrates_eq saveShare_def exampleShares_def
        createShareProcessor_def getWorkerValidShares_def sumDifficulty_def Let_def)

text \<open>
  Claim C8, amended. After a valid share whose timestamp lies in the trailing 10-minute
  window has been processed, a \<open>hashrate:updated\<close> event for its worker is emitted whose
  hashrate is the difficulty sum of that worker's valid shares in the window, multiplied
  by the constant 4.295e9 (the code's rounded stand-in for 2^32) and divided by 600. The
  pool hashrate returned by \<open>calculatePoolHashrate\<close> is the same expression over the
  valid shares of all workers.
\<close>

theorem processShare_hashrate:
  assumes "isValid share" and "now - 10 * 60 * 1000 \<le> timestamp share"
    and "timestamp share \<le> now"
  shows "\<exists>h evs. snd (processShare sp share now) = HashrateUpdatedEv h # evs
     \<and> hu_workerId h = workerId share
     \<and> hu_hashrate h =
         sumDifficulty (getWorkerValidShares (storage (fst (processShare sp share now)))
                          (workerId share) (now - 10 * 60 * 1000) now) * 4295000000 / 600
     \<and> calculatePoolHashrate (fst (processShare sp share now)) now =
         sumDifficulty (getPoolValidShares (storage (fst (processShare sp share now)))
                          (now - 10 * 60 * 1000) now) * 4295000000 / 600"
proof -
  let ?sp1 = "sp\<lparr>storage := saveShare share (storage sp)\<rparr>"
  have w: "getWorkerValidShares (storage ?sp1) (workerId share) (now - 10 * 60 * 1000) now \<noteq> []"
    using assms by (simp add: getWorkerValidShares_def saveShare_def)
  have p: "getPoolValidShares (storage ?sp1) (now - 10 * 60 * 1000) now \<noteq> []"
    using assms by (simp add: getPoolValidShares_def saveShare_def)
  have fst: "fst (processShare sp share now) = ?sp1"
    by (simp add: processShare_def Let_def)
  obtain h where h: "calculateHashrates ?sp1 (workerId share) now = Some h"
    and hw: "hu_workerId h = workerId share"
    and hr: "hu_hashrate h =
         sumDifficulty (getWorkerValidShares (storage ?sp1) (workerId share)
                          (now - 10 * 60 * 1000) now) * 4295000000 / 600"
    using w by (simp add: calculateHashrates_eq Let_def)
  have "\<exists>evs. snd (processShare sp share now) = HashrateUpdatedEv h # evs"
    by (simp add: processShare_def Let_def h)
  moreover have "calculatePoolHashrate ?sp1 now =
         sumDifficulty (getPoolValidShares (storage ?sp1) (now - 10 * 60 * 1000) now)
           * 4295000000 / 600"
    using p by (simp add: calculatePoolHashrate_eq Let_def)
  ultimately show ?thesis using hw hr by (auto simp only: fst)
qed

theorem processShare_hashrate_witness:
  "isValid (last exampleShares)
   \<and> 4000000 - 10 * 60 * 1000 \<le> timestamp (last exampleShares)
   \<and> timestamp (last exampleShares) \<le> 4000000
   \<and> (\<exists>h evs. snd (processShare (createShareProcessor\<lparr>storage := butlast exampleShares\<rparr>)
                      (last exampleShares) 4000000) = HashrateUpdatedEv h # evs
        \<and> hu_hashrate h = 200 * 4295000000 / 600)
   \<and> calculatePoolHashrate
        (fst (processShare (createShareProcessor\<lparr>storage := butlast exampleShares\<rparr>)
               (last exampleShares) 4000000)) 4000000 = 300 * 4295000000 / 600"
proof -
  let ?sp = "createShareProcessor\<lparr>storage := butlast exampleShares\<rparr>"
  have a: "isValid (last exampleShares)"
    and b: "4000000 - 10 * 60 * 1000 \<le> timestamp (last exampleShares)"
    and c: "timestamp (last exampleShares) \<le> 4000000"
    by (simp_all add: exampleShares_def)
  have st: "storage (fst (processShare ?sp (last exampleShares) 4000000)) = exampleShares"
    by (simp add: processShare_def Let_def saveShare_def exampleShares_def)
  have w: "sumDifficulty (getWorkerValidShares exampleShares (workerId (last exampleShares))
             (4000000 - 10 * 60 * 1000) 4000000) = 200"
    by (simp add: getWorkerValidShares_def sumDifficulty_def exampleShares_def)
  have p: "sumDifficulty (getPoolValidShares exampleShares (4000000 - 10 * 60 * 1000) 4000000) = 300"
    by (simp add: getPoolValidShares_def sumDifficulty_def exampleShares_def)
  from processShare_hashrate [OF a b c, of ?sp]
  show ?thesis using a b c by (simp only: st w p) blast
qed

section \<open>Properties of the payout manager\<close>

lemma findIndex_distinct:
  "distinct (map f xs) \<Longrightarrow> r < length xs \<Longrightarrow> findIndex (\<lambda>p. f p = f (xs ! r)) xs = Some r"
proof (induction xs arbitrary: r)
  case Nil
  then show ?case by simp
next
  case (Cons x xs)
  show ?case
  proof (cases r)
    case 0
    then show ?thesis by simp
  next
    case (Suc k)
    with Cons.prems have k: "k < length xs" by simp
    then have "xs ! k \<in> set xs" by simp
    with Cons.prems have "f x \<noteq> f (xs ! k)" by auto
    note k this
    with Cons.IH [of k] Cons.prems Suc show ?thesis by simp
  qed
qed

lemma withStatus_fields [simp]:
  "payout_id (withStatus st txid now p) = payout_id p"
  "userId (withStatus st txid now p) = userId p"
  "amount (withStatus st txid now p) = amount p"
  "status (withStatus st txid now p) = st"
  by (simp_all add: withStatus_def Let_def split: option.splits)

lemma updatePayoutStatus_ref:
  assumes "distinct (map payout_id (payouts m))" and "r < length (payouts m)"
  shows "updatePayoutStatus (payout_id (payouts m ! r)) st txid now m =
           Inr (m\<lparr>payouts := (payouts m)[r := withStatus st txid now (payouts m ! r)],
                  trace := trace m @ [StatusWrite r st]\<rparr>)"
  using findIndex_distinct [OF assms]
  by (simp add: updatePayoutStatus_def withStatus_def Let_def)

lemma frame_refl [simp]: "frame m m"
  by (simp add: frame_def)

lemma frame_trans: "frame a b \<Longrightarrow> frame b c \<Longrightarrow> frame a c"
  by (simp add: frame_def)

lemma frame_length: "frame m m' \<Longrightarrow> length (payouts m') = length (payouts m)"
  by (auto simp: frame_def dest: map_eq_imp_length_eq)

lemma frame_trace [simp]: "frame m (m'\<lparr>trace := t\<rparr>) = frame m m'"
  "frame (m\<lparr>trace := t\<rparr>) m' = frame m m'"
  by (simp_all add: frame_def)

lemma quiet_frame: "frame m m' \<Longrightarrow> quiet m \<Longrightarrow> quiet m'"
  by (simp add: frame_def quiet_def)

lemma quiet_trace [simp]: "quiet (m\<lparr>trace := t\<rparr>) = quiet m"
  by (simp add: quiet_def)

lemma emit_quiet: "quiet m \<Longrightarrow> emit ev m = Inr (m\<lparr>trace := trace m @ [Emit ev]\<rparr>)"
  by (simp add: emit_def quiet_def Let_def)

lemma map_update_same: "f y = f (xs ! r) \<Longrightarrow> map f (xs[r := y]) = map f xs"
  by (cases "r < length xs") (auto simp: list_eq_iff_nth_eq nth_list_update)

lemma frame_markStep: "frame m (markStep st txid ev now m r)"
  by (simp add: markStep_def Let_def frame_def map_update_same split: option.splits)

lemma markEach_step:
  assumes "distinct (map payout_id (payouts m))" and "r < length (payouts m)" and "quiet m"
  shows "markEach st txid ev now (r # rs) m
           = markEach st txid ev now rs (markStep st txid ev now m r)"
proof -
  let ?mU = "m\<lparr>payouts := (payouts m)[r := withStatus st txid now (payouts m ! r)],
                trace := trace m @ [StatusWrite r st]\<rparr>"
  have step: "updatePayoutStatus (payout_id (payouts m ! r)) st txid now m = Inr ?mU"
    using assms(1,2) by (rule updatePayoutStatus_ref)
  have q: "quiet ?mU" using assms(3) by (simp add: quiet_def)
  show ?thesis
  proof (cases "ev (payouts ?mU ! r)")
    case None
    then show ?thesis by (simp add: step markStep_def Let_def)
  next
    case (Some e)
    then show ?thesis by (simp add: step markStep_def Let_def emit_quiet [OF q])
  qed
qed

lemma markEach_foldl:
  assumes "distinct (map payout_id (payouts m))" and "\<forall>r\<in>set refs. r < length (payouts m)"
    and "quiet m"
  shows "markEach st txid ev now refs m = Inr (foldl (markStep st txid ev now) m refs)"
  using assms
proof (induction refs arbitrary: m)
  case Nil
  then show ?case by simp
next
  case (Cons r refs)
  let ?m1 = "markStep st txid ev now m r"
  have fr: "frame m ?m1" by (rule frame_markStep)
  then have ids: "map payout_id (payouts ?m1) = map payout_id (payouts m)"
    by (simp add: frame_def)
  have len: "length (payouts ?m1) = length (payouts m)"
    using fr by (rule frame_length)
  have q1: "quiet ?m1" using fr Cons.prems(3) by (rule quiet_frame)
  have "markEach st txid ev now refs ?m1 = Inr (foldl (markStep st txid ev now) ?m1 refs)"
    using Cons.prems q1 by (intro Cons.IH) (simp_all add: ids len)
  moreover have "r < length (payouts m)" using Cons.prems by simp
  then have "markEach st txid ev now (r # refs) m = markEach st txid ev now refs ?m1"
    using Cons.prems(1,3) by (intro markEach_step)
  ultimately show ?case by simp
qed

lemma frame_foldl_markStep: "frame m (foldl (markStep st txid ev now) m refs)"
proof (induction refs arbitrary: m)
  case Nil
  then show ?case by simp
next
  case (Cons r refs)
  show ?case
    using frame_trans [OF frame_markStep Cons.IH] by simp
qed

lemma status_markStep:
  "k < length (payouts m) \<Longrightarrow>
   status (payouts (markStep st txid ev now m r) ! k) = (if k = r then st else status (payouts m ! k))"
  by (simp add: markStep_def Let_def nth_list_update split: option.splits)

lemma status_foldl_markStep:
  "k < length (payouts m) \<Longrightarrow>
   status (payouts (foldl (markStep st txid ev now) m refs) ! k)
     = (if k \<in> set refs then st else status (payouts m ! k))"
proof (induction refs arbitrary: m)
  case Nil
  then show ?case by simp
next
  case (Cons r refs)
  have "k < length (payouts (markStep st txid ev now m r))"
    using Cons.prems frame_length [OF frame_markStep] by simp
  from Cons.IH [OF this] Cons.prems show ?case
    by (simp add: status_markStep)
qed

lemma statusWrites_append [simp]:
  "statusWrites r (xs @ ys) = statusWrites r xs @ statusWrites r ys"
  by (induction r xs rule: statusWrites.induct) simp_all

lemma emitted_append [simp]: "emitted (xs @ ys) = emitted xs @ emitted ys"
  by (induction xs rule: emitted.induct) simp_all

lemma nodeOutputs_append [simp]: "nodeOutputs (xs @ ys) = nodeOutputs xs @ nodeOutputs ys"
  by (induction xs rule: nodeOutputs.induct) simp_all

lemma statusWrites_markStep:
  "statusWrites k (trace (markStep st txid ev now m r))
     = statusWrites k (trace m) @ (if k = r then [st] else [])"
  by (simp add: markStep_def Let_def split: option.splits)

lemma statusWrites_foldl_markStep:
  "distinct refs \<Longrightarrow>
   statusWrites k (trace (foldl (markStep st txid ev now) m refs))
     = statusWrites k (trace m) @ (if k \<in> set refs then [st] else [])"
  by (induction refs arbitrary: m) (auto simp: statusWrites_markStep)



lemma wfBatch_frame: "frame m m' \<Longrightarrow> wfBatch m refs \<Longrightarrow> wfBatch m' refs"
  using frame_length [of m m'] by (simp add: wfBatch_def frame_def quiet_def)

lemma wfBatch_trace [simp]: "wfBatch (m\<lparr>trace := t\<rparr>) refs = wfBatch m refs"
  by (simp add: wfBatch_def)

lemma nodeOutputs_foldl_markStep:
  "nodeOutputs (trace (foldl (markStep st txid ev now) m refs)) = nodeOutputs (trace m)"
  by (induction refs arbitrary: m) (simp_all add: markStep_def Let_def split: option.splits)

lemma emitted_markStep:
  "r < length (payouts m) \<Longrightarrow>
   emitted (trace (markStep st txid ev now m r))
     = emitted (trace m) @ eventsOf st txid ev now m [r]"
  by (simp add: markStep_def Let_def eventsOf_def split: option.splits)

lemma payouts_markStep_other:
  "k \<noteq> r \<Longrightarrow> payouts (markStep st txid ev now m r) ! k = payouts m ! k"
  by (simp add: markStep_def Let_def split: option.splits)

lemma eventsOf_cong:
  "(\<And>r. r \<in> set refs \<Longrightarrow> payouts m' ! r = payouts m ! r) \<Longrightarrow>
   eventsOf st txid ev now m' refs = eventsOf st txid ev now m refs"
  unfolding eventsOf_def by (rule arg_cong [where f = concat]) (simp cong: map_cong)

lemma emitted_foldl_markStep:
  "distinct refs \<Longrightarrow> \<forall>r\<in>set refs. r < length (payouts m) \<Longrightarrow>
   emitted (trace (foldl (markStep st txid ev now) m refs))
     = emitted (trace m) @ eventsOf st txid ev now m refs"
proof (induction refs arbitrary: m)
  case Nil
  then show ?case by (simp add: eventsOf_def)
next
  case (Cons r refs)
  let ?m1 = "markStep st txid ev now m r"
  have len: "length (payouts ?m1) = length (payouts m)"
    using frame_markStep by (rule frame_length)
  have "emitted (trace (foldl (markStep st txid ev now) ?m1 refs))
          = emitted (trace ?m1) @ eventsOf st txid ev now ?m1 refs"
    using Cons.prems by (intro Cons.IH) (simp_all add: len)
  moreover have "eventsOf st txid ev now ?m1 refs = eventsOf st txid ev now m refs"
    using Cons.prems(1) by (intro eventsOf_cong payouts_markStep_other) auto
  moreover have "emitted (trace ?m1) = emitted (trace m) @ eventsOf st txid ev now m [r]"
    using Cons.prems(2) by (simp add: emitted_markStep)
  ultimately show ?case by (simp add: eventsOf_def)
qed

lemma payouts_markStep:
  "k < length (payouts m) \<Longrightarrow>
   payouts (markStep st txid ev now m r) ! k
     = (if k = r then withStatus st txid now (payouts m ! k) else payouts m ! k)"
  by (simp add: markStep_def Let_def nth_list_update split: option.splits)

lemma payouts_foldl_markStep:
  "distinct refs \<Longrightarrow> k < length (payouts m) \<Longrightarrow>
   payouts (foldl (markStep st txid ev now) m refs) ! k
     = (if k \<in> set refs then withStatus st txid now (payouts m ! k) else payouts m ! k)"
proof (induction refs arbitrary: m)
  case Nil
  then show ?case by simp
next
  case (Cons r refs)
  have "k < length (payouts (markStep st txid ev now m r))"
    using Cons.prems frame_length [OF frame_markStep] by simp
  with Cons.IH [of "markStep st txid ev now m r"] Cons.prems show ?case
    by (auto simp: payouts_markStep)
qed

lemma markEach_all:
  assumes "wfBatch m refs"
  shows "\<exists>m'. markEach st txid ev now refs m = Inr m' \<and> frame m m'
     \<and> (\<forall>k<length (payouts m). payouts m' ! k
            = (if k \<in> set refs then withStatus st txid now (payouts m ! k) else payouts m ! k))
     \<and> (\<forall>k<length (payouts m). status (payouts m' ! k)
            = (if k \<in> set refs then st else status (payouts m ! k)))
     \<and> (\<forall>k. statusWrites k (trace m')
            = statusWrites k (trace m) @ (if k \<in> set refs then [st] else []))
     \<and> nodeOutputs (trace m') = nodeOutputs (trace m)
     \<and> emitted (trace m') = emitted (trace m) @ eventsOf st txid ev now m refs"
proof -
  from assms have d: "distinct (map payout_id (payouts m))"
    and v: "\<forall>r\<in>set refs. r < length (payouts m)" and dr: "distinct refs"
    and q: "quiet m"
    by (simp_all add: wfBatch_def)
  let ?m' = "foldl (markStep st txid ev now) m refs"
  have "markEach st txid ev now refs m = Inr ?m'"
    using d v q by (rule markEach_foldl)
  moreover have "frame m ?m'" by (rule frame_foldl_markStep)
  moreover have "\<forall>k<length (payouts m). status (payouts ?m' ! k)
            = (if k \<in> set refs then st else status (payouts m ! k))"
    by (simp add: status_foldl_markStep)
  moreover have "\<forall>k<length (payouts m). payouts ?m' ! k
            = (if k \<in> set refs then withStatus st txid now (payouts m ! k) else payouts m ! k)"
    using dr by (simp add: payouts_foldl_markStep)
  moreover have "\<forall>k. statusWrites k (trace ?m')
            = statusWrites k (trace m) @ (if k \<in> set refs then [st] else [])"
    using dr by (simp add: statusWrites_foldl_markStep)
  moreover have "nodeOutputs (trace ?m') = nodeOutputs (trace m)"
    by (rule nodeOutputs_foldl_markStep)
  moreover have "emitted (trace ?m') = emitted (trace m) @ eventsOf st txid ev now m refs"
    using dr v by (rule emitted_foldl_markStep)
  ultimately show ?thesis by blast
qed

lemma frame_nth:
  assumes "frame m m'" and "r < length (payouts m)"
  shows "userId (payouts m' ! r) = userId (payouts m ! r)"
    and "amount (payouts m' ! r) = amount (payouts m ! r)"
    and "payout_id (payouts m' ! r) = payout_id (payouts m ! r)"
proof -
  have len: "r < length (payouts m')" using assms frame_length [of m m'] by simp
  from assms(1) have "map userId (payouts m') ! r = map userId (payouts m) ! r"
    and "map amount (payouts m') ! r = map amount (payouts m) ! r"
    and "map payout_id (payouts m') ! r = map payout_id (payouts m) ! r"
    by (simp_all add: frame_def)
  then show "userId (payouts m' ! r) = userId (payouts m ! r)"
    and "amount (payouts m' ! r) = amount (payouts m ! r)"
    and "payout_id (payouts m' ! r) = payout_id (payouts m ! r)"
    using len assms(2) by simp_all
qed

lemma buildOutputs_frame:
  assumes "frame m m'" and "\<forall>r\<in>set refs. r < length (payouts m)"
  shows "buildOutputs refs m' = buildOutputs refs m"
  unfolding buildOutputs_def
  using assms by (intro foldl_cong refl) (simp add: frame_nth)


lemma eventsOf_failed:
  "eventsOf FAILED None
      (\<lambda>payout. Some (PayoutFailed (payout\<lparr>status := FAILED, processedAt := Some now\<rparr>) msg))
      now m refs
     = map (\<lambda>r. PayoutFailed ((payouts m ! r)\<lparr>status := FAILED, processedAt := Some now\<rparr>) msg) refs"
  by (induction refs) (simp_all add: eventsOf_def withStatus_def)

text \<open>The handler of \<open>processBatch\<close>, entered with the state \<open>m2\<close> reached by the throw.\<close>

lemma processBatch_handler:
  assumes wf: "wfBatch m refs"
    and m1: "frame m m1"
      "\<forall>k<length (payouts m). payouts m1 ! k
          = (if k \<in> set refs then withStatus PROCESSING None now (payouts m ! k) else payouts m ! k)"
      "\<forall>k. statusWrites k (trace m1)
          = statusWrites k (trace m) @ (if k \<in> set refs then [PROCESSING] else [])"
      "emitted (trace m1) = emitted (trace m)"
  shows "\<exists>m'. markFailed e now refs m1 = Inr m' \<and> frame m m'
     \<and> (\<forall>k<length (payouts m). payouts m' ! k
            = (if k \<in> set refs then (payouts m ! k)\<lparr>status := FAILED, processedAt := Some now\<rparr>
               else payouts m ! k))
     \<and> (\<forall>k. statusWrites k (trace m')
            = statusWrites k (trace m) @ (if k \<in> set refs then [PROCESSING, FAILED] else []))
     \<and> emitted (trace m') = emitted (trace m) @
          map (\<lambda>r. PayoutFailed ((payouts m ! r)\<lparr>status := FAILED, processedAt := Some now\<rparr>)
                     (errorMessage e)) refs"
proof -
  have wf1: "wfBatch m1 refs" using m1(1) wf by (rule wfBatch_frame)
  have len: "length (payouts m1) = length (payouts m)" using m1(1) by (rule frame_length)
  have valid: "\<forall>r\<in>set refs. r < length (payouts m)" using wf by (simp add: wfBatch_def)
  from markEach_all [OF wf1, of FAILED None _ now]
  obtain m' where run: "markFailed e now refs m1 = Inr m'" and fr: "frame m1 m'"
    and ps: "\<forall>k<length (payouts m1). payouts m' ! k
            = (if k \<in> set refs then withStatus FAILED None now (payouts m1 ! k) else payouts m1 ! k)"
    and ws: "\<forall>k. statusWrites k (trace m')
            = statusWrites k (trace m1) @ (if k \<in> set refs then [FAILED] else [])"
    and em: "emitted (trace m') = emitted (trace m1) @
         eventsOf FAILED None
           (\<lambda>payout. Some (PayoutFailed (payout\<lparr>status := FAILED, processedAt := Some now\<rparr>)
                             (errorMessage e))) now m1 refs"
    unfolding markFailed_def by blast
  have "frame m m'" using m1(1) fr by (rule frame_trans)
  moreover have "\<forall>k<length (payouts m). payouts m' ! k
            = (if k \<in> set refs then (payouts m ! k)\<lparr>status := FAILED, processedAt := Some now\<rparr>
               else payouts m ! k)"
    using ps m1(2) by (simp add: len withStatus_def)
  moreover have "\<forall>k. statusWrites k (trace m')
            = statusWrites k (trace m) @ (if k \<in> set refs then [PROCESSING, FAILED] else [])"
    using ws m1(3) by simp
  moreover have "map (\<lambda>r. PayoutFailed ((payouts m1 ! r)\<lparr>status := FAILED, processedAt := Some now\<rparr>)
                     (errorMessage e)) refs
        = map (\<lambda>r. PayoutFailed ((payouts m ! r)\<lparr>status := FAILED, processedAt := Some now\<rparr>)
                     (errorMessage e)) refs"
    using valid m1(2) by (intro map_cong refl) (simp add: withStatus_def)
  then have "emitted (trace m') = emitted (trace m) @
          map (\<lambda>r. PayoutFailed ((payouts m ! r)\<lparr>status := FAILED, processedAt := Some now\<rparr>)
                     (errorMessage e)) refs"
    using em m1(4) by (simp add: eventsOf_failed)
  ultimately show ?thesis using run by blast
qed


lemma markProcessing_all:
  assumes "wfBatch m refs"
  shows "\<exists>m1. markProcessing now refs m = Inr m1 \<and> frame m m1
     \<and> (\<forall>k<length (payouts m). payouts m1 ! k
          = (if k \<in> set refs then withStatus PROCESSING None now (payouts m ! k) else payouts m ! k))
     \<and> (\<forall>k. statusWrites k (trace m1)
          = statusWrites k (trace m) @ (if k \<in> set refs then [PROCESSING] else []))
     \<and> emitted (trace m1) = emitted (trace m)
     \<and> nodeOutputs (trace m1) = nodeOutputs (trace m)"
proof -
  have none: "eventsOf PROCESSING None (\<lambda>payout. None) now m refs = []"
    by (induction refs) (simp_all add: eventsOf_def)
  from markEach_all [OF assms, of PROCESSING None "\<lambda>payout. None" now]
  show ?thesis unfolding markProcessing_def none by auto
qed

lemma processBatch_throw:
  assumes wf: "wfBatch m refs"
    and fails: "createRawTransaction node (buildOutputs refs m) = Inl e
      \<or> (\<exists>rawTx. createRawTransaction node (buildOutputs refs m) = Inr rawTx
             \<and> signAndSendRawTransaction node rawTx = Inl e)"
  shows "\<exists>m'. processBatch node now refs m = (Inr 0, m') \<and> frame m m'
     \<and> (\<forall>k<length (payouts m). payouts m' ! k
            = (if k \<in> set refs then (payouts m ! k)\<lparr>status := FAILED, processedAt := Some now\<rparr>
               else payouts m ! k))
     \<and> (\<forall>k. statusWrites k (trace m')
            = statusWrites k (trace m) @ (if k \<in> set refs then [PROCESSING, FAILED] else []))
     \<and> emitted (trace m') = emitted (trace m) @
          map (\<lambda>r. PayoutFailed ((payouts m ! r)\<lparr>status := FAILED, processedAt := Some now\<rparr>)
                     (errorMessage e)) refs"
proof -
  have valid: "\<forall>r\<in>set refs. r < length (payouts m)" using wf by (simp add: wfBatch_def)
  from markProcessing_all [OF wf, of now]
  obtain m1 where mp: "markProcessing now refs m = Inr m1" and fr: "frame m m1"
    and ps: "\<forall>k<length (payouts m). payouts m1 ! k
          = (if k \<in> set refs then withStatus PROCESSING None now (payouts m ! k) else payouts m ! k)"
    and ws: "\<forall>k. statusWrites k (trace m1)
          = statusWrites k (trace m) @ (if k \<in> set refs then [PROCESSING] else [])"
    and em: "emitted (trace m1) = emitted (trace m)"
    by blast
  have outs: "buildOutputs refs m1 = buildOutputs refs m"
    using fr valid by (rule buildOutputs_frame)
  let ?m2 = "m1\<lparr>trace := trace m1 @ [CreateRawTransaction (buildOutputs refs m)]\<rparr>"
  have "\<exists>m2. processBatchTry node now refs m = Inl (e, m2) \<and> frame m m2
     \<and> (\<forall>k<length (payouts m). payouts m2 ! k
          = (if k \<in> set refs then withStatus PROCESSING None now (payouts m ! k) else payouts m ! k))
     \<and> (\<forall>k. statusWrites k (trace m2)
          = statusWrites k (trace m) @ (if k \<in> set refs then [PROCESSING] else []))
     \<and> emitted (trace m2) = emitted (trace m)"
    using fails
  proof
    assume "createRawTransaction node (buildOutputs refs m) = Inl e"
    then have "processBatchTry node now refs m = Inl (e, ?m2)"
      by (simp add: processBatchTry_def mp outs Let_def)
    moreover have "frame m ?m2" using fr by simp
    ultimately show ?thesis using ps ws em by (intro exI [of _ ?m2]) simp
  next
    assume "\<exists>rawTx. createRawTransaction node (buildOutputs refs m) = Inr rawTx
             \<and> signAndSendRawTransaction node rawTx = Inl e"
    then obtain rawTx where c: "createRawTransaction node (buildOutputs refs m) = Inr rawTx"
      and sg: "signAndSendRawTransaction node rawTx = Inl e" by blast
    let ?m3 = "?m2\<lparr>trace := trace ?m2 @ [SignAndSendRawTransaction rawTx]\<rparr>"
    have "processBatchTry node now refs m = Inl (e, ?m3)"
      by (simp add: processBatchTry_def mp outs Let_def c sg)
    moreover have "frame m ?m3" using fr by simp
    ultimately show ?thesis using ps ws em by (intro exI [of _ ?m3]) simp
  qed
  then obtain m2 where tr: "processBatchTry node now refs m = Inl (e, m2)"
    and fr2: "frame m m2"
    and ps2: "\<forall>k<length (payouts m). payouts m2 ! k
          = (if k \<in> set refs then withStatus PROCESSING None now (payouts m ! k) else payouts m ! k)"
    and ws2: "\<forall>k. statusWrites k (trace m2)
          = statusWrites k (trace m) @ (if k \<in> set refs then [PROCESSING] else [])"
    and em2: "emitted (trace m2) = emitted (trace m)"
    by blast
  from processBatch_handler [OF wf fr2 ps2 ws2 em2, of e]
  obtain m' where mf: "markFailed e now refs m2 = Inr m'" and frf: "frame m m'"
    and wsf: "\<forall>k. statusWrites k (trace m')
            = statusWrites k (trace m) @ (if k \<in> set refs then [PROCESSING, FAILED] else [])"
    and psf: "\<forall>k<length (payouts m). payouts m' ! k
            = (if k \<in> set refs then (payouts m ! k)\<lparr>status := FAILED, processedAt := Some now\<rparr>
               else payouts m ! k)"
    and emf: "emitted (trace m') = emitted (trace m) @
          map (\<lambda>r. PayoutFailed ((payouts m ! r)\<lparr>status := FAILED, processedAt := Some now\<rparr>)
                     (errorMessage e)) refs"
    by blast
  have "processBatch node now refs m = (Inr 0, m')"
    by (simp add: processBatch_def tr mf)
  then show ?thesis using frf psf wsf emf by blast
qed


lemma processBatch_success:
  assumes wf: "wfBatch m refs"
    and c: "createRawTransaction node (buildOutputs refs m) = Inr rawTx"
    and sg: "signAndSendRawTransaction node rawTx = Inr txid"
  shows "\<exists>m'. processBatch node now refs m = (Inr (length refs), m') \<and> frame m m'
     \<and> (\<forall>k<length (payouts m). status (payouts m' ! k)
            = (if k \<in> set refs then COMPLETED else status (payouts m ! k)))
     \<and> (\<forall>k. statusWrites k (trace m')
            = statusWrites k (trace m) @ (if k \<in> set refs then [PROCESSING, COMPLETED] else []))"
proof -
  have valid: "\<forall>r\<in>set refs. r < length (payouts m)" using wf by (simp add: wfBatch_def)
  from markProcessing_all [OF wf, of now]
  obtain m1 where mp: "markProcessing now refs m = Inr m1" and fr: "frame m m1"
    and ps: "\<forall>k<length (payouts m). payouts m1 ! k
          = (if k \<in> set refs then withStatus PROCESSING None now (payouts m ! k) else payouts m ! k)"
    and ws: "\<forall>k. statusWrites k (trace m1)
          = statusWrites k (trace m) @ (if k \<in> set refs then [PROCESSING] else [])"
    by blast
  have outs: "buildOutputs refs m1 = buildOutputs refs m"
    using fr valid by (rule buildOutputs_frame)
  let ?m3 = "m1\<lparr>trace := trace m1 @ [CreateRawTransaction (buildOutputs refs m),
                                        SignAndSendRawTransaction rawTx]\<rparr>"
  have tr: "processBatchTry node now refs m = markCompleted txid now refs ?m3"
    by (simp add: processBatchTry_def mp outs Let_def c sg)
  have fr3: "frame m ?m3" using fr by simp
  have len3: "length (payouts ?m3) = length (payouts m)" using fr3 by (rule frame_length)
  have wf3: "wfBatch ?m3 refs" using fr3 wf by (rule wfBatch_frame)
  from markEach_all [OF wf3, of COMPLETED "Some txid" _ now]
  obtain m' where mc: "markCompleted txid now refs ?m3 = Inr m'" and fr': "frame ?m3 m'"
    and ps': "\<forall>k<length (payouts ?m3). payouts m' ! k
            = (if k \<in> set refs then withStatus COMPLETED (Some txid) now (payouts ?m3 ! k)
               else payouts ?m3 ! k)"
    and ws': "\<forall>k. statusWrites k (trace m')
            = statusWrites k (trace ?m3) @ (if k \<in> set refs then [COMPLETED] else [])"
    unfolding markCompleted_def by blast
  have "processBatch node now refs m = (Inr (length refs), m')"
    by (simp add: processBatch_def tr mc)
  moreover have "frame m m'" using fr3 fr' by (rule frame_trans)
  moreover have "\<forall>k<length (payouts m). status (payouts m' ! k)
            = (if k \<in> set refs then COMPLETED else status (payouts m ! k))"
  proof (intro allI impI)
    fix k assume k: "k < length (payouts m)"
    then have "payouts m' ! k
            = (if k \<in> set refs then withStatus COMPLETED (Some txid) now (payouts ?m3 ! k)
               else payouts ?m3 ! k)"
      using ps' len3 by simp
    moreover have "payouts ?m3 ! k
          = (if k \<in> set refs then withStatus PROCESSING None now (payouts m ! k) else payouts m ! k)"
      using ps k by simp
    ultimately show "status (payouts m' ! k)
            = (if k \<in> set refs then COMPLETED else status (payouts m ! k))"
      by simp
  qed
  moreover have "\<forall>k. statusWrites k (trace m')
            = statusWrites k (trace m) @ (if k \<in> set refs then [PROCESSING, COMPLETED] else [])"
    using ws' ws by simp
  ultimately show ?thesis by blast
qed

lemma processBatch_outcome:
  assumes wf: "wfBatch m refs"
  shows "\<exists>m' n st. processBatch node now refs m = (Inr n, m') \<and> (st = COMPLETED \<or> st = FAILED)
     \<and> frame m m'
     \<and> (\<forall>k<length (payouts m). status (payouts m' ! k)
            = (if k \<in> set refs then st else status (payouts m ! k)))
     \<and> (\<forall>k. statusWrites k (trace m')
            = statusWrites k (trace m) @ (if k \<in> set refs then [PROCESSING, st] else []))"
proof -
  consider (throws) e where "createRawTransaction node (buildOutputs refs m) = Inl e
      \<or> (\<exists>rawTx. createRawTransaction node (buildOutputs refs m) = Inr rawTx
             \<and> signAndSendRawTransaction node rawTx = Inl e)"
    | (sent) rawTx txid where "createRawTransaction node (buildOutputs refs m) = Inr rawTx"
        "signAndSendRawTransaction node rawTx = Inr txid"
  proof (cases "createRawTransaction node (buildOutputs refs m)")
    case (Inl e)
    then show ?thesis using throws by blast
  next
    case c: (Inr rawTx)
    show ?thesis
    proof (cases "signAndSendRawTransaction node rawTx")
      case (Inl e)
      with c show ?thesis using throws by blast
    next
      case (Inr txid)
      with c show ?thesis using sent by blast
    qed
  qed
  then show ?thesis
  proof cases
    case throws
    from processBatch_throw [OF wf throws, of now]
    obtain m' where run: "processBatch node now refs m = (Inr 0, m')" and fr: "frame m m'"
      and ps: "\<forall>k<length (payouts m). payouts m' ! k
            = (if k \<in> set refs then (payouts m ! k)\<lparr>status := FAILED, processedAt := Some now\<rparr>
               else payouts m ! k)"
      and ws: "\<forall>k. statusWrites k (trace m')
            = statusWrites k (trace m) @ (if k \<in> set refs then [PROCESSING, FAILED] else [])"
      by blast
    have "\<forall>k<length (payouts m). status (payouts m' ! k)
            = (if k \<in> set refs then FAILED else status (payouts m ! k))"
      using ps by simp
    with run fr ws show ?thesis by blast
  next
    case sent
    from processBatch_success [OF wf sent, of now] show ?thesis by blast
  qed
qed

lemma makeBatches_concat:
  "concat (makeBatches mx ps cur bs) = concat bs @ cur @ ps"
  by (induction ps arbitrary: cur bs) (simp_all add: Let_def)

lemma processBatches_settled:
  assumes "distinct (map payout_id (payouts m))"
    and "distinct (concat bs)"
    and "\<forall>r\<in>set (concat bs). r < length (payouts m) \<and> status (payouts m ! r) = PENDING"
    and "\<forall>r. settled m r"
    and "quiet m"
  shows "\<exists>n m'. processBatches nodes k now bs c m = (Inr n, m') \<and> frame m m' \<and> (\<forall>r. settled m' r)"
  using assms
proof (induction bs arbitrary: k c m)
  case Nil
  then show ?case by simp
next
  case (Cons b bs)
  have wf: "wfBatch m b"
    using Cons.prems by (simp add: wfBatch_def)
  from processBatch_outcome [OF wf, of "nodes k" now]
  obtain m1 n st where run: "processBatch (nodes k) now b m = (Inr n, m1)"
    and st: "st = COMPLETED \<or> st = FAILED" and fr: "frame m m1"
    and ps: "\<forall>j<length (payouts m). status (payouts m1 ! j)
            = (if j \<in> set b then st else status (payouts m ! j))"
    and ws: "\<forall>j. statusWrites j (trace m1)
            = statusWrites j (trace m) @ (if j \<in> set b then [PROCESSING, st] else [])"
    by blast
  have len: "length (payouts m1) = length (payouts m)" using fr by (rule frame_length)
  have d1: "distinct (map payout_id (payouts m1))"
    using fr Cons.prems(1) by (simp add: frame_def)
  have rest: "\<forall>r\<in>set (concat bs). r < length (payouts m1) \<and> status (payouts m1 ! r) = PENDING"
    using Cons.prems(2,3) ps by (auto simp: len)
  have settled1: "\<forall>r. settled m1 r"
  proof
    fix r
    show "settled m1 r"
    proof (cases "r \<in> set b")
      case True
      with Cons.prems(3) have r: "r < length (payouts m)" "status (payouts m ! r) = PENDING"
        by simp_all
      with Cons.prems(4) [rule_format, of r] have "statusWrites r (trace m) = [PENDING]"
        by (simp add: settled_def)
      with True r st ps ws show ?thesis
        by (auto simp: settled_def len)
    next
      case False
      with ps ws Cons.prems(4) [rule_format, of r] show ?thesis
        by (auto simp: settled_def len)
    qed
  qed
  have q1: "quiet m1" using fr Cons.prems(5) by (rule quiet_frame)
  have "distinct (concat bs)" using Cons.prems(2) by simp
  from Cons.IH [OF d1 this rest settled1 q1, of "Suc k" "c + n"]
  obtain n' m' where "processBatches nodes (Suc k) now bs (c + n) m1 = (Inr n', m')"
    and "frame m1 m'" and "\<forall>r. settled m' r" by blast
  with run fr show ?case
    by (auto intro: frame_trans)
qed

lemma getPendingPayouts_props:
  "distinct (getPendingPayouts m)"
  "\<forall>r\<in>set (getPendingPayouts m). r < length (payouts m) \<and> status (payouts m ! r) = PENDING"
  by (simp_all add: getPendingPayouts_def)

lemma processPayouts_quiescent:
  assumes "quiescent m"
  shows "quiescent (snd (processPayouts nodes now m)) \<and> frame m (snd (processPayouts nodes now m))"
proof -
  let ?m2 = "m\<lparr>isProcessing := True, trace := trace m @ [GetPendingPayouts]\<rparr>"
  from assms have d: "distinct (map payout_id (payouts m))" and np: "\<not> isProcessing m"
    and s: "\<forall>r. settled m r" and q: "quiet m" by (simp_all add: quiescent_def)
  have s2: "\<forall>r. settled ?m2 r" using s by (simp add: settled_def)
  have d2: "distinct (map payout_id (payouts ?m2))" using d by simp
  have q2: "quiet ?m2" using q by (simp add: quiet_def)
  show ?thesis
  proof (cases "getPendingPayouts ?m2 = []")
    case True
    then have "snd (processPayouts nodes now m) = ?m2\<lparr>isProcessing := False\<rparr>"
      using np by (simp add: processPayouts_def Let_def)
    then show ?thesis using d s np q by (simp add: quiescent_def settled_def frame_def quiet_def)
  next
    case False
    let ?bs = "makeBatches (maxPayoutsPerBatch ?m2) (getPendingPayouts ?m2) [] []"
    have c: "concat ?bs = getPendingPayouts ?m2" by (simp add: makeBatches_concat)
    have "distinct (concat ?bs)"
      and "\<forall>r\<in>set (concat ?bs). r < length (payouts ?m2) \<and> status (payouts ?m2 ! r) = PENDING"
      unfolding c by (rule getPendingPayouts_props)+
    from processBatches_settled [OF d2 this s2 q2, of nodes 0 now 0]
    obtain n m3 where run: "processBatches nodes 0 now ?bs 0 ?m2 = (Inr n, m3)"
      and fr: "frame ?m2 m3" and s3: "\<forall>r. settled m3 r" by blast
    have "snd (processPayouts nodes now m) = m3\<lparr>isProcessing := False\<rparr>"
      using np False run by (simp add: processPayouts_def Let_def)
    moreover have "quiescent (m3\<lparr>isProcessing := False\<rparr>)"
      using fr s3 d q by (simp add: quiescent_def settled_def frame_def quiet_def)
    moreover have "frame m (m3\<lparr>isProcessing := False\<rparr>)"
      using fr np by (simp add: frame_def)
    ultimately show ?thesis by simp
  qed
qed


lemma extends_refl [simp]: "extends m m"
  by (simp add: extends_def)

lemma extends_trans: "extends a b \<Longrightarrow> extends b c \<Longrightarrow> extends a c"
  by (auto simp: extends_def)

lemma frame_extends: "frame m m' \<Longrightarrow> extends m m'"
  using frame_length [of m m'] by (simp add: extends_def frame_nth)

lemma createPayout_quiescent:
  assumes q: "quiescent m"
    and fresh: "amt < minPayout m \<or> generatePayoutId now rnd \<notin> payout_id ` set (payouts m)"
  shows "quiescent (snd (createPayout user amt now rnd m))
     \<and> extends m (snd (createPayout user amt now rnd m))"
proof (cases "amt < minPayout m")
  case True
  then show ?thesis using q by (simp add: createPayout_def)
next
  case False
  let ?p = "\<lparr>payout_id = generatePayoutId now rnd, userId = user, amount = amt, fee = 0,
             status = PENDING, transactionId = None, payoutTimestamp = int now,
             processedAt = None\<rparr>"
  let ?m' = "m\<lparr>payouts := payouts m @ [?p],
               trace := trace m @ [StatusWrite (length (payouts m)) PENDING, Emit (PayoutCreated ?p)]\<rparr>"
  from q have d: "distinct (map payout_id (payouts m))" and np: "\<not> isProcessing m"
    and s: "\<forall>r. settled m r" and qt: "quiet m" by (simp_all add: quiescent_def)
  have eq: "snd (createPayout user amt now rnd m) = ?m'"
    using False qt by (simp add: createPayout_def Let_def emit_def quiet_def)
  have "settled ?m' r" for r
    using s [rule_format, of r] by (auto simp: settled_def nth_append)
  moreover have "distinct (map payout_id (payouts ?m'))"
    using d fresh False by simp
  ultimately have "quiescent ?m'" using np qt by (simp add: quiescent_def quiet_def)
  moreover have "extends m ?m'" by (simp add: extends_def nth_append)
  ultimately show ?thesis by (simp only: eq) 
qed

lemma perform_quiescent:
  assumes "quiescent m" and "freshIds [op] m"
  shows "quiescent (perform op m) \<and> extends m (perform op m)"
proof (cases op)
  case (CreatePayout user amt now rnd)
  with assms createPayout_quiescent [of m amt now rnd user] show ?thesis by simp
next
  case (ProcessPayouts nodes now)
  with assms(1) processPayouts_quiescent [of m nodes now] show ?thesis
    by (simp add: frame_extends)
qed

lemma freshIds_Cons: "freshIds (op # ops) m \<longleftrightarrow> freshIds [op] m \<and> freshIds ops (perform op m)"
  by (cases op) simp_all

lemma run_Cons [simp]: "run (op # ops) m = run ops (perform op m)"
  by (simp add: run_def)

lemma run_Nil [simp]: "run [] m = m"
  by (simp add: run_def)

lemma run_append: "run (ops1 @ ops2) m = run ops2 (run ops1 m)"
  by (simp add: run_def)

lemma freshIds_append:
  "freshIds (ops1 @ ops2) m \<longleftrightarrow> freshIds ops1 m \<and> freshIds ops2 (run ops1 m)"
proof (induction ops1 arbitrary: m)
  case Nil
  then show ?case by simp
next
  case (Cons op ops1)
  show ?case
    using Cons.IH [of "perform op m"] freshIds_Cons [of op "ops1 @ ops2" m]
      freshIds_Cons [of op ops1 m] by simp
qed

lemma run_quiescent:
  "quiescent m \<Longrightarrow> freshIds ops m \<Longrightarrow> quiescent (run ops m) \<and> extends m (run ops m)"
proof (induction ops arbitrary: m)
  case Nil
  then show ?case by simp
next
  case (Cons op ops)
  from Cons.prems(2) have f1: "freshIds [op] m" and f2: "freshIds ops (perform op m)"
    using freshIds_Cons [of op ops m] by simp_all
  from perform_quiescent [OF Cons.prems(1) f1]
  have q: "quiescent (perform op m)" and e: "extends m (perform op m)" by simp_all
  from Cons.IH [OF q f2] e show ?case
    by (auto intro: extends_trans)
qed

lemma quiescent_initial: "quiescent (createPayoutManager minP maxB)"
  by (simp add: quiescent_def createPayoutManager_def settled_def quiet_def)

lemma statusWrites_take_prefix: "prefix (statusWrites r (take n t)) (statusWrites r t)"
proof -
  have "statusWrites r t = statusWrites r (take n t) @ statusWrites r (drop n t)"
    by (simp only: statusWrites_append [symmetric] append_take_drop_id)
  then show ?thesis by (metis prefixI)
qed

lemma settled_history:
  assumes "settled m r" and "r < length (payouts m)"
  shows "legalHistory (statusWrites r (take n (trace m)))"
    and "statusWrites r (trace m) \<noteq> []"
    and "status (payouts m ! r) = last (statusWrites r (trace m))"
proof -
  from assms have "legalHistory (statusWrites r (trace m))"
    by (auto simp: settled_def legalHistory_def)
  then show "legalHistory (statusWrites r (take n (trace m)))"
    unfolding legalHistory_def
    using statusWrites_take_prefix [of r n "trace m"] by (blast intro: prefix_order.trans)
  from assms show "statusWrites r (trace m) \<noteq> []"
    and "status (payouts m ! r) = last (statusWrites r (trace m))"
    by (auto simp: settled_def)
qed

text \<open>
  When the generated ids do not repeat and no listener is registered, the lifecycle
  holds. Start from a fresh manager and run any sequence of \<open>createPayout\<close> and
  \<open>processPayouts\<close> calls (\<open>processBatch\<close> runs inside the latter) in which the ids are
  fresh. Then for every payout, at every moment of the run, the values its status has
  taken form a prefix of \<open>pending, processing, completed\<close> or of
  \<open>pending, processing, failed\<close>, its current status is the last of them, and its amount
  is the one it had after any earlier part of the run.
\<close>

lemma lifecycle_fresh_ids:
  assumes fresh: "freshIds ops (createPayoutManager minP maxB)"
  shows "(\<forall>r<length (payouts (run ops (createPayoutManager minP maxB))).
            (\<forall>n. legalHistory
                   (statusWrites r (take n (trace (run ops (createPayoutManager minP maxB))))))
          \<and> statusWrites r (trace (run ops (createPayoutManager minP maxB))) \<noteq> []
          \<and> status (payouts (run ops (createPayoutManager minP maxB)) ! r)
              = last (statusWrites r (trace (run ops (createPayoutManager minP maxB)))))
     \<and> (\<forall>ops1 ops2. ops = ops1 @ ops2 \<longrightarrow>
          (\<forall>r<length (payouts (run ops1 (createPayoutManager minP maxB))).
             r < length (payouts (run ops (createPayoutManager minP maxB)))
             \<and> amount (payouts (run ops (createPayoutManager minP maxB)) ! r)
                 = amount (payouts (run ops1 (createPayoutManager minP maxB)) ! r)))"
proof -
  let ?init = "createPayoutManager minP maxB"
  have q: "quiescent (run ops ?init)"
    using run_quiescent [OF quiescent_initial fresh] by simp
  have hist: "\<forall>r<length (payouts (run ops ?init)).
            (\<forall>n. legalHistory (statusWrites r (take n (trace (run ops ?init)))))
          \<and> statusWrites r (trace (run ops ?init)) \<noteq> []
          \<and> status (payouts (run ops ?init) ! r) = last (statusWrites r (trace (run ops ?init)))"
    using q settled_history [of "run ops ?init"] by (simp add: quiescent_def)
  have am: "\<forall>r<length (payouts (run ops1 ?init)).
             r < length (payouts (run ops ?init))
             \<and> amount (payouts (run ops ?init) ! r) = amount (payouts (run ops1 ?init) ! r)"
    if split: "ops = ops1 @ ops2" for ops1 ops2
  proof -
    from fresh split have f1: "freshIds ops1 ?init" and f2: "freshIds ops2 (run ops1 ?init)"
      by (simp_all add: freshIds_append)
    have q1: "quiescent (run ops1 ?init)"
      using run_quiescent [OF quiescent_initial f1] by simp
    have "extends (run ops1 ?init) (run ops2 (run ops1 ?init))"
      using run_quiescent [OF q1 f2] by simp
    then show ?thesis by (auto simp: split run_append extends_def)
  qed
  show ?thesis using hist am by blast
qed

lemmas payout_eval_simps =
  processPayouts_def getPendingPayouts_def processBatch_def processBatchTry_def
  markProcessing_def markCompleted_def markFailed_def updatePayoutStatus_def Let_def
  buildOutputs_def setProp_def emit_def errorMessage_def

lemma examplePending_eq:
  "examplePending =
     \<lparr>payouts = [p0, p1, p2], isProcessing = False, minPayout = 1/1000, maxPayoutsPerBatch = 50,
      listeners = [],
      trace = [StatusWrite 0 PENDING, Emit (PayoutCreated p0),
               StatusWrite 1 PENDING, Emit (PayoutCreated p1),
               StatusWrite 2 PENDING, Emit (PayoutCreated p2)]\<rparr>"
  by (simp add: examplePending_def exampleCreates_def createPayoutManager_def createPayout_def
        generatePayoutId_def toString.simps emit_def Let_def p0_def p1_def p2_def)

text \<open>
  A listener that throws. With a listener of \<open>payout:completed\<close> that throws registered,
  a batch whose transaction the node has accepted is handled as a failure: the first
  payout is written \<open>completed\<close> and then \<open>failed\<close>, the others \<open>failed\<close>.
\<close>

lemma processBatch_listener_throws:
  "fst (processBatch okNode 5000 [0, 1, 2] (on throwingListener examplePending)) = Inr 0
   \<and> statusWrites 0 (trace (snd (processBatch okNode 5000 [0, 1, 2] (on throwingListener examplePending))))
       = [PENDING, PROCESSING, COMPLETED, FAILED]
   \<and> statusWrites 1 (trace (snd (processBatch okNode 5000 [0, 1, 2] (on throwingListener examplePending))))
       = [PENDING, PROCESSING, FAILED]
   \<and> nodeOutputs (trace (snd (processBatch okNode 5000 [0, 1, 2] (on throwingListener examplePending))))
       = [[(''addrA'', 1/8), (''addrB'', 1/4)]]
   \<and> map status (payouts (snd (processBatch okNode 5000 [0, 1, 2] (on throwingListener examplePending))))
       = [FAILED, FAILED, FAILED]"
  by (simp add: on_def throwingListener_def examplePending_eq p0_def p1_def p2_def okNode_def
        payout_eval_simps)

text \<open>
  Claim C4 as the specification has it, at a node whose broadcast throws a value that is
  not an \<open>Error\<close>: the three payouts of the batch are marked failed, but the
  \<open>payout:failed\<close> events carry the text \<open>Unknown error\<close>, not the reason that was thrown.
\<close>

theorem processBatch_reason_counterexample:
  "signAndSendRawTransaction stringThrowingNode ''rawtx'' = Inl (NonError ''insufficient funds'')
   \<and> map status (payouts (snd (processBatch stringThrowingNode 5000 [0, 1, 2] examplePending)))
       = [FAILED, FAILED, FAILED]
   \<and> emitted (trace (snd (processBatch stringThrowingNode 5000 [0, 1, 2] examplePending)))
       = [PayoutCreated p0, PayoutCreated p1, PayoutCreated p2,
          PayoutFailed (p0\<lparr>status := FAILED, processedAt := Some 5000\<rparr>) ''Unknown error'',
          PayoutFailed (p1\<lparr>status := FAILED, processedAt := Some 5000\<rparr>) ''Unknown error'',
          PayoutFailed (p2\<lparr>status := FAILED, processedAt := Some 5000\<rparr>) ''Unknown error'']"
  by (simp add: examplePending_eq p0_def p1_def p2_def stringThrowingNode_def payout_eval_simps)

text \<open>
  Claim C4, amended. Take a batch of distinct payouts of a storage whose payout ids are
  unique, in a manager none of whose listeners throws. When the construction of the
  transaction or its signing and broadcast throws \<open>e\<close> while the batch is processed,
  \<open>processBatch\<close> returns 0, every payout of the batch ends with status \<open>FAILED\<close> (none
  with \<open>COMPLETED\<close>), and exactly one \<open>payout:failed\<close> event per member is emitted, in the
  order of the batch. Each event carries the payout with its new status and time, and as
  the reason the message of \<open>e\<close> when \<open>e\<close> is an \<open>Error\<close>, the text \<open>Unknown error\<close> when it
  is any other value.
\<close>

theorem processBatch_failure:
  assumes ids: "distinct (map payout_id (payouts m))"
    and batch: "distinct refs" "\<forall>r\<in>set refs. r < length (payouts m)"
    and listeners_return: "\<forall>ev. callListeners (listeners m) ev = None"
    and fails: "createRawTransaction node (buildOutputs refs m) = Inl e
      \<or> (\<exists>rawTx. createRawTransaction node (buildOutputs refs m) = Inr rawTx
             \<and> signAndSendRawTransaction node rawTx = Inl e)"
  shows "\<exists>m'. processBatch node now refs m = (Inr 0, m')
     \<and> (\<forall>r\<in>set refs. status (payouts m' ! r) = FAILED \<and> status (payouts m' ! r) \<noteq> COMPLETED)
     \<and> emitted (trace m') = emitted (trace m) @
          map (\<lambda>r. PayoutFailed ((payouts m ! r)\<lparr>status := FAILED, processedAt := Some now\<rparr>)
                     (case e of JsError msg \<Rightarrow> msg | NonError v \<Rightarrow> ''Unknown error'')) refs"
proof -
  have wf: "wfBatch m refs"
    using ids batch listeners_return by (simp add: wfBatch_def quiet_def)
  from processBatch_throw [OF wf fails, of now]
  obtain m' where run: "processBatch node now refs m = (Inr 0, m')"
    and ps: "\<forall>k<length (payouts m). payouts m' ! k
            = (if k \<in> set refs then (payouts m ! k)\<lparr>status := FAILED, processedAt := Some now\<rparr>
               else payouts m ! k)"
    and em: "emitted (trace m') = emitted (trace m) @
          map (\<lambda>r. PayoutFailed ((payouts m ! r)\<lparr>status := FAILED, processedAt := Some now\<rparr>)
                     (errorMessage e)) refs"
    by blast
  have "\<forall>r\<in>set refs. status (payouts m' ! r) = FAILED \<and> status (payouts m' ! r) \<noteq> COMPLETED"
    using ps batch(2) by simp
  with run em show ?thesis unfolding errorMessage_def by blast
qed

text \<open>
  The scenario of the specification: three pending payouts, the broadcast throws an
  \<open>Error\<close>.
\<close>

theorem processBatch_failure_witness:
  "distinct (map payout_id (payouts examplePending))
   \<and> (\<forall>ev. callListeners (listeners examplePending) ev = None)
   \<and> length (payouts examplePending) = 3
   \<and> createRawTransaction failNode (buildOutputs [0, 1, 2] examplePending) = Inr ''rawtx''
   \<and> signAndSendRawTransaction failNode ''rawtx'' = Inl (JsError ''broadcast failed'')
   \<and> (\<exists>m'. processBatch failNode 5000 [0, 1, 2] examplePending = (Inr 0, m')
          \<and> status (payouts m' ! 0) = FAILED \<and> status (payouts m' ! 1) = FAILED
          \<and> status (payouts m' ! 2) = FAILED
          \<and> emitted (trace m') =
               [PayoutCreated p0, PayoutCreated p1, PayoutCreated p2,
                PayoutFailed (p0\<lparr>status := FAILED, processedAt := Some 5000\<rparr>) ''broadcast failed'',
                PayoutFailed (p1\<lparr>status := FAILED, processedAt := Some 5000\<rparr>) ''broadcast failed'',
                PayoutFailed (p2\<lparr>status := FAILED, processedAt := Some 5000\<rparr>) ''broadcast failed''])"
proof -
  have ids: "distinct (map payout_id (payouts examplePending))"
    by (simp add: examplePending_eq p0_def p1_def p2_def)
  have len: "length (payouts examplePending) = 3"
    by (simp add: examplePending_eq)
  have batch: "distinct [0, 1, 2::nat]" "\<forall>r\<in>set [0, 1, 2]. r < length (payouts examplePending)"
    by (simp_all add: len)
  have q: "\<forall>ev. callListeners (listeners examplePending) ev = None"
    by (simp add: examplePending_eq)
  have c: "createRawTransaction failNode (buildOutputs [0, 1, 2] examplePending) = Inr ''rawtx''"
    and s: "signAndSendRawTransaction failNode ''rawtx'' = Inl (JsError ''broadcast failed'')"
    by (simp_all add: failNode_def)
  then have fails: "createRawTransaction failNode (buildOutputs [0, 1, 2] examplePending)
        = Inl (JsError ''broadcast failed'')
      \<or> (\<exists>rawTx. createRawTransaction failNode (buildOutputs [0, 1, 2] examplePending) = Inr rawTx
             \<and> signAndSendRawTransaction failNode rawTx = Inl (JsError ''broadcast failed''))"
    by blast
  from processBatch_failure [OF ids batch q fails, of 5000]
  obtain m' where run: "processBatch failNode 5000 [0, 1, 2] examplePending = (Inr 0, m')"
    and st: "\<forall>r\<in>set [0, 1, 2]. status (payouts m' ! r) = FAILED"
    and em: "emitted (trace m') = emitted (trace examplePending) @
          map (\<lambda>r. PayoutFailed ((payouts examplePending ! r)\<lparr>status := FAILED, processedAt := Some 5000\<rparr>)
                     (case JsError ''broadcast failed'' of JsError msg \<Rightarrow> msg
                      | NonError v \<Rightarrow> ''Unknown error'')) [0, 1, 2]"
    by blast
  have "emitted (trace m') =
               [PayoutCreated p0, PayoutCreated p1, PayoutCreated p2,
                PayoutFailed (p0\<lparr>status := FAILED, processedAt := Some 5000\<rparr>) ''broadcast failed'',
                PayoutFailed (p1\<lparr>status := FAILED, processedAt := Some 5000\<rparr>) ''broadcast failed'',
                PayoutFailed (p2\<lparr>status := FAILED, processedAt := Some 5000\<rparr>) ''broadcast failed'']"
    unfolding em by (simp add: examplePending_eq)
  with ids q len c s run st show ?thesis by simp
qed

text \<open>
  Claim C5, at two payouts created in the same millisecond with the same outcome of the
  random expression of \<open>generatePayoutId\<close>. Both payouts get the id
  \<open>payout_1000_250000\<close>, and the storage updates a status by id, on the first payout that
  has it. Two payout runs follow, the node accepting every transaction. The status of
  the first payout is written \<open>processing\<close> twice and \<open>completed\<close> twice in the first run,
  then \<open>processing\<close> and \<open>completed\<close> again in the second run: it leaves \<open>completed\<close>. The
  second payout is paid in both runs and its status is never written after its
  creation.
\<close>

theorem createPayout_repeated_id:
  "map payout_id (payouts (run (take 2 collidingOps) (createPayoutManager (1/1000) 50)))
     = [''payout_1000_250000'', ''payout_1000_250000'']
   \<and> statusWrites 0 (trace (run collidingOps (createPayoutManager (1/1000) 50)))
       = [PENDING, PROCESSING, PROCESSING, COMPLETED, COMPLETED, PROCESSING, COMPLETED]
   \<and> \<not> legalHistory (statusWrites 0 (trace (run collidingOps (createPayoutManager (1/1000) 50))))
   \<and> statusWrites 1 (trace (run collidingOps (createPayoutManager (1/1000) 50))) = [PENDING]
   \<and> map status (payouts (run collidingOps (createPayoutManager (1/1000) 50)))
       = [COMPLETED, PENDING]
   \<and> nodeOutputs (trace (run collidingOps (createPayoutManager (1/1000) 50)))
       = [[(''addrA'', 1/2), (''addrB'', 1/4)], [(''addrB'', 1/4)]]"
  by (simp add: collidingOps_def createPayoutManager_def createPayout_def generatePayoutId_def
        toString.simps okNode_def legalHistory_def payout_eval_simps)

text \<open>
  Claim C2, at a batch in which two payouts share an address: both payouts are marked
  completed, but the output set handed to the node pays that address only the amount of
  the later payout (1/8 instead of 1/2 + 1/8).
\<close>

theorem processPayouts_shared_address:
  "map (\<lambda>p. (userId p, amount p, status p)) (payouts examplePending)
     = [(''addrA'', 1/2, PENDING), (''addrB'', 1/4, PENDING), (''addrA'', 1/8, PENDING)]
   \<and> fst (processPayouts (\<lambda>k. okNode) 5000 examplePending) = Inr 3
   \<and> nodeOutputs (trace (snd (processPayouts (\<lambda>k. okNode) 5000 examplePending)))
       = [[(''addrA'', 1/8), (''addrB'', 1/4)]]
   \<and> map status (payouts (snd (processPayouts (\<lambda>k. okNode) 5000 examplePending)))
       = [COMPLETED, COMPLETED, COMPLETED]"
  by (simp add: examplePending_eq p0_def p1_def p2_def okNode_def payout_eval_simps)

text \<open>
  Claim C6. While the single-flight flag is set, \<open>processPayouts\<close> returns 0 and leaves the
  manager as it was: the storage, the flag and the record of actions (no read of the
  pending payouts, no call to the node, no status write, no event) are unchanged.
\<close>

theorem processPayouts_single_flight:
  assumes "isProcessing m"
  shows "processPayouts nodes now m = (Inr 0, m)"
  using assms by (simp add: processPayouts_def)

theorem processPayouts_single_flight_witness:
  "isProcessing (examplePending\<lparr>isProcessing := True\<rparr>)
   \<and> processPayouts (\<lambda>k. okNode) 5000 (examplePending\<lparr>isProcessing := True\<rparr>)
       = (Inr 0, examplePending\<lparr>isProcessing := True\<rparr>)
   \<and> getPendingPayouts (examplePending\<lparr>isProcessing := True\<rparr>) = [0, 1, 2]"
proof -
  have a: "isProcessing (examplePending\<lparr>isProcessing := True\<rparr>)" by simp
  have "getPendingPayouts (examplePending\<lparr>isProcessing := True\<rparr>) = [0, 1, 2]"
    by (simp add: getPendingPayouts_def examplePending_eq p0_def p1_def p2_def)
  with a processPayouts_single_flight [OF a, of "\<lambda>k. okNode" 5000] show ?thesis by simp
qed

section \<open>Properties of the Stratum server\<close>

lemma nonce_deadbeef: "generateExtraNonce1 [0xde, 0xad, 0xbe, 0xef] = ''deadbeef''"
  by (simp add: generateExtraNonce1_def hexOfByte_def)

lemma port_strings: "toString 4001 = ''4001''" "toString 4002 = ''4002''"
  by (simp_all add: toString.simps)

text \<open>
  Claim C7, at two connections for which \<open>crypto.randomBytes\<close> returns the same four
  bytes: both sessions are open and carry the same extraNonce1.
\<close>

theorem handleConnection_same_random_bytes:
  "map (\<lambda>(cid, c). (cid, isConnected c, extraNonce1 c)) (clients twoSessions)
     = [(''10.0.0.1:4001'', True, ''deadbeef''), (''10.0.0.2:4002'', True, ''deadbeef'')]
   \<and> openNonces twoSessions = [''deadbeef'', ''deadbeef'']
   \<and> \<not> distinct (openNonces twoSessions)"
  by (simp add: twoSessions_def handleConnection_def createStratumServer_def nonce_deadbeef
        port_strings start_def sendNotification_def send_def openNonces_def Let_def)

lemma exampleServer_eq:
  "exampleServer =
     \<lparr>clients = [(''10.0.0.1:4001'', exampleClient)],
      serverDifficulty = 1, jobId = 2, currentBlockTemplate = Some templateB,
      serverEmitted = [], submittedBlocks = []\<rparr>"
  by (simp add: exampleServer_def pollBlockTemplate_def broadcastJob_def handleConnection_def
        createStratumServer_def nonce_deadbeef port_strings start_def sendNotification_def
        send_def Let_def templateA_def templateB_def exampleClient_def)

text \<open>
  Claim C3, as stated, after two job changes (current job id 2): with the same outcome of
  the proof-of-work stand-in, the submission for job 2 is accepted and the submission
  for job 1, the immediately preceding job, is rejected.
\<close>

theorem validateShare_previous_job_counterexample:
  "jobId exampleServer = 2
   \<and> validateShare exampleServer (JStr ''2'') (1/2)
   \<and> \<not> validateShare exampleServer (JStr ''1'') (1/2)"
  by (simp add: exampleServer_eq validateShare_def toString.simps)


lemma map_fst_update_present:
  "map_of al k = Some v \<Longrightarrow> map fst (AList.update k v' al) = map fst al"
  by (induction al) (auto split: if_splits)

lemma withClient_keys: "map fst (clients (withClient cid f srv)) = map fst (clients srv)"
  by (simp add: withClient_def map_fst_update_present split: option.splits)

lemma withClient_lookup:
  "map_of (clients (withClient cid f srv)) k =
     (if k = cid then map_option f (map_of (clients srv) cid) else map_of (clients srv) k)"
  by (simp add: withClient_def update_conv' split: option.splits)

lemma withClient_other [simp]:
  "serverEmitted (withClient cid f srv) = serverEmitted srv"
  "serverDifficulty (withClient cid f srv) = serverDifficulty srv"
  "jobId (withClient cid f srv) = jobId srv"
  "currentBlockTemplate (withClient cid f srv) = currentBlockTemplate srv"
  "submittedBlocks (withClient cid f srv) = submittedBlocks srv"
  by (simp_all add: withClient_def split: option.splits)

lemma isConnected_sendResponse [simp]: "isConnected (sendResponse r c) = isConnected c"
  by (simp add: sendResponse_def send_def)

lemma destructure_array5:
  "destructure (JArr [a, b, c, d, e]) 5 = Inr [a, b, c, d, e]"
  by (simp add: destructure_def)

text \<open>
  Claim C3, amended. A submission passes the job check only when its job id is the
  decimal rendering of the current job id; it is then accepted when the proof-of-work
  stand-in succeeds. A submission with any other job id, the immediately preceding one
  included, is recorded as an invalid share and answered with \<open>false\<close>; the session stays
  in the client map and its connection flag is unchanged.
\<close>

theorem handleSubmit_current_job_only:
  assumes client: "map_of (clients srv) cid = Some c"
    and stale: "jobIdParam \<noteq> JStr (toString (jobId srv))"
  shows "(\<forall>j r. validateShare srv j r \<longleftrightarrow> j = JStr (toString (jobId srv)) \<and> r > 0.05)
     \<and> (\<exists>srv'. handleSubmit cid (JArr [workername, jobIdParam, extraNonce2, nTime, nonce]) env srv
                  = Inr srv'
          \<and> serverEmitted srv' = serverEmitted srv @
               [ShareSubmitted \<lparr>sd_workerId = workername, sd_ip = getIp c,
                                 sd_timestamp = env_now env,
                                 sd_difficulty = serverDifficulty srv, sd_isValid = False\<rparr>]
          \<and> map fst (clients srv') = map fst (clients srv)
          \<and> map_of (clients srv') cid = Some (shareResponse False c)
          \<and> isConnected (shareResponse False c) = isConnected c)"
proof -
  have v: "validateShare srv j r \<longleftrightarrow> j = JStr (toString (jobId srv)) \<and> r > 0.05" for j r
    by (simp add: validateShare_def)
  let ?sd = "\<lparr>sd_workerId = workername, sd_ip = getIp c, sd_timestamp = env_now env,
              sd_difficulty = serverDifficulty srv, sd_isValid = False\<rparr>"
  let ?srv' = "withClient cid (shareResponse False)
                 (srv\<lparr>serverEmitted := serverEmitted srv @ [ShareSubmitted ?sd]\<rparr>)"
  have run: "handleSubmit cid (JArr [workername, jobIdParam, extraNonce2, nTime, nonce]) env srv
               = Inr ?srv'"
    using client stale by (simp add: handleSubmit_def destructure_array5 v Let_def)
  moreover have "serverEmitted ?srv' = serverEmitted srv @ [ShareSubmitted ?sd]" by simp
  moreover have "map fst (clients ?srv') = map fst (clients srv)"
    by (simp add: withClient_keys)
  moreover have "map_of (clients ?srv') cid = Some (shareResponse False c)"
    using client by (simp add: withClient_lookup)
  moreover have "isConnected (shareResponse False c) = isConnected c"
    by (simp add: shareResponse_def)
  ultimately show ?thesis using v by blast
qed


text \<open>A submission for job 1 while job 2 is current.\<close>

theorem handleSubmit_current_job_only_witness:
  "map_of (clients exampleServer) ''10.0.0.1:4001'' = Some exampleClient
   \<and> JStr ''1'' \<noteq> JStr (toString (jobId exampleServer))
   \<and> (\<exists>srv'. handleSubmit ''10.0.0.1:4001'' (exampleSubmit ''1'') exampleEnv exampleServer = Inr srv'
          \<and> serverEmitted srv' =
               [ShareSubmitted \<lparr>sd_workerId = JStr ''worker1'', sd_ip = ''10.0.0.1'',
                                 sd_timestamp = 3000, sd_difficulty = 1, sd_isValid = False\<rparr>]
          \<and> map fst (clients srv') = [''10.0.0.1:4001'']
          \<and> map_option isConnected (map_of (clients srv') ''10.0.0.1:4001'') = Some True)"
proof -
  have c: "map_of (clients exampleServer) ''10.0.0.1:4001'' = Some exampleClient"
    by (simp add: exampleServer_eq)
  have j: "JStr ''1'' \<noteq> JStr (toString (jobId exampleServer))"
    by (simp add: exampleServer_eq toString.simps)
  have ip: "getIp exampleClient = ''10.0.0.1''"
    by (simp add: getIp_def exampleClient_def)
  have ev0: "serverEmitted exampleServer = []" "serverDifficulty exampleServer = 1"
    "map fst (clients exampleServer) = [''10.0.0.1:4001'']"
    by (simp_all add: exampleServer_eq)
  have conn: "isConnected exampleClient" by (simp add: exampleClient_def)
  have now: "env_now exampleEnv = 3000" by (simp add: exampleEnv_def)
  note th = handleSubmit_current_job_only [OF c j, of "JStr ''worker1''" "JStr ''00000000''"
      "JStr ''5f5e1000''" "JStr ''1a2b3c4d''" exampleEnv, THEN conjunct2,
      unfolded ip ev0 now, folded exampleSubmit_def]
  then obtain srv' where
    run: "handleSubmit ''10.0.0.1:4001'' (exampleSubmit ''1'') exampleEnv exampleServer = Inr srv'"
    and ev: "serverEmitted srv' = [] @
               [ShareSubmitted \<lparr>sd_workerId = JStr ''worker1'', sd_ip = ''10.0.0.1'',
                                 sd_timestamp = 3000, sd_difficulty = 1, sd_isValid = False\<rparr>]"
    and keys: "map fst (clients srv') = [''10.0.0.1:4001'']"
    and cl: "map_of (clients srv') ''10.0.0.1:4001'' = Some (shareResponse False exampleClient)"
    and conn': "isConnected (shareResponse False exampleClient) = isConnected exampleClient"
    by (elim exE conjE)
  have e1: "serverEmitted srv' =
               [ShareSubmitted \<lparr>sd_workerId = JStr ''worker1'', sd_ip = ''10.0.0.1'',
                                 sd_timestamp = 3000, sd_difficulty = 1, sd_isValid = False\<rparr>]"
    using ev by simp
  have e2: "map_option isConnected (map_of (clients srv') ''10.0.0.1:4001'') = Some True"
    by (simp add: cl conn' conn)
  show ?thesis
    by (intro conjI exI [of _ srv']) (fact c j run e1 keys e2)+
qed

lemma indexOf_append_fresh:
  "ch \<notin> set xs \<Longrightarrow> indexOf ch (xs @ ch # ys) = Some (length xs)"
  by (induction xs) auto

lemma splitLines_line:
  assumes "newline \<notin> set message"
  shows "splitLines (message @ newline # rest)
           = (message # fst (splitLines rest), snd (splitLines rest))"
  using indexOf_append_fresh [OF assms, of rest]
  by (subst splitLines.simps) (simp add: case_prod_unfold Let_def)

lemma handleLines_shift:
  "handleLines parse envs (Suc k) ls cid srv
     = handleLines parse (\<lambda>j. envs (Suc j)) k ls cid srv"
  by (induction ls arbitrary: k srv) simp_all

lemma handleLines_append:
  "handleLines parse envs k (xs @ ys) cid srv
     = handleLines parse envs (k + length xs) ys cid (handleLines parse envs k xs cid srv)"
  by (induction xs arbitrary: k srv) simp_all

lemma handleMessage_discard:
  assumes "parse message = Inl e
      \<or> (\<exists>parsed method. parse message = Inr parsed \<and> getProp parsed ''method'' = Inr method
            \<and> method \<noteq> JStr ''mining.subscribe'' \<and> method \<noteq> JStr ''mining.authorize''
            \<and> method \<noteq> JStr ''mining.submit'')"
  shows "handleMessage parse env message cid srv = srv"
  using assms by (auto simp: handleMessage_def)

text \<open>
  Claim C9. A line that the parser rejects, or whose \<open>method\<close> is none of the three known
  methods, leaves the whole server state as it was (the session stays in the client map,
  connected, with its subscribed and authorized flags). In the loop over the complete
  lines of a chunk such a line is skipped and the lines after it are handled on the
  state the lines before it left; a chunk that starts with such a line is handled
  exactly as the chunk without it.
\<close>

theorem handleMessage_bad_line:
  assumes bad: "parse message = Inl e
      \<or> (\<exists>parsed method. parse message = Inr parsed \<and> getProp parsed ''method'' = Inr method
            \<and> method \<noteq> JStr ''mining.subscribe'' \<and> method \<noteq> JStr ''mining.authorize''
            \<and> method \<noteq> JStr ''mining.submit'')"
  shows "handleMessage parse env message cid srv = srv
     \<and> (\<forall>before after k srv0.
           handleLines parse envs k (before @ message # after) cid srv0
             = handleLines parse envs (Suc (k + length before)) after cid
                 (handleLines parse envs k before cid srv0))
     \<and> (newline \<notin> set message \<and> map_option buffer (map_of (clients srv) cid) = Some []
          \<longrightarrow> handleData parse envs now (message @ newline # later) cid srv
                = handleData parse (\<lambda>k. envs (Suc k)) now later cid srv)"
proof (intro conjI impI allI)
  show "handleMessage parse env message cid srv = srv"
    using bad by (rule handleMessage_discard)
next
  fix before after k srv0
  let ?s = "handleLines parse envs k before cid srv0"
  have "handleMessage parse (envs (k + length before)) message cid ?s = ?s"
    using bad by (rule handleMessage_discard)
  then show "handleLines parse envs k (before @ message # after) cid srv0
             = handleLines parse envs (Suc (k + length before)) after cid ?s"
    by (simp add: handleLines_append)
next
  assume a: "newline \<notin> set message \<and> map_option buffer (map_of (clients srv) cid) = Some []"
  then obtain c where c: "map_of (clients srv) cid = Some c" and b: "buffer c = []"
    by (cases "map_of (clients srv) cid") auto
  let ?srv1 = "withClient cid (\<lambda>c. c\<lparr>lastActivity := now, buffer := snd (splitLines later)\<rparr>) srv"
  have "handleData parse envs now (message @ newline # later) cid srv
          = handleLines parse envs 0 (message # fst (splitLines later)) cid ?srv1"
    using a by (simp add: handleData_def c b splitLines_line case_prod_unfold Let_def)
  also have "\<dots> = handleLines parse envs (Suc 0) (fst (splitLines later)) cid ?srv1"
    using handleMessage_discard [of parse message e "envs 0" cid ?srv1, OF bad] by simp
  also have "\<dots> = handleLines parse (\<lambda>k. envs (Suc k)) 0 (fst (splitLines later)) cid ?srv1"
    by (rule handleLines_shift)
  also have "\<dots> = handleData parse (\<lambda>k. envs (Suc k)) now later cid srv"
    by (simp add: handleData_def c b case_prod_unfold Let_def)
  finally show "handleData parse envs now (message @ newline # later) cid srv
                = handleData parse (\<lambda>k. envs (Suc k)) now later cid srv" .
qed


lemma splitLines_Nil: "splitLines [] = ([], [])"
  by (subst splitLines.simps) simp

lemma newline_not_in:
  "newline \<notin> set ''garbage''" "newline \<notin> set ''subscribe-line''"
  by (simp_all add: newline_def)

text \<open>A malformed line followed by a subscription: the session ends up subscribed.\<close>

theorem handleMessage_bad_line_witness:
  "exampleParse ''garbage'' = Inl (JsError ''SyntaxError'')
   \<and> newline \<notin> set ''garbage''
   \<and> map_option buffer (map_of (clients exampleServer) ''10.0.0.1:4001'') = Some []
   \<and> handleMessage exampleParse exampleEnv ''garbage'' ''10.0.0.1:4001'' exampleServer = exampleServer
   \<and> handleData exampleParse (\<lambda>k. exampleEnv) 3000
         (''garbage'' @ newline # ''subscribe-line'' @ [newline]) ''10.0.0.1:4001'' exampleServer
       = handleData exampleParse (\<lambda>k. exampleEnv) 3000
           (''subscribe-line'' @ [newline]) ''10.0.0.1:4001'' exampleServer
   \<and> map_option (\<lambda>c. (isConnected c, isSubscribed c, isAuthorized c))
         (map_of (clients (handleData exampleParse (\<lambda>k. exampleEnv) 3000
            (''garbage'' @ newline # ''subscribe-line'' @ [newline]) ''10.0.0.1:4001'' exampleServer))
            ''10.0.0.1:4001'')
       = Some (True, True, False)"
proof -
  have p: "exampleParse ''garbage'' = Inl (JsError ''SyntaxError'')"
    by (simp add: exampleParse_def)
  then have bad: "exampleParse ''garbage'' = Inl (JsError ''SyntaxError'')
      \<or> (\<exists>parsed method. exampleParse ''garbage'' = Inr parsed
            \<and> getProp parsed ''method'' = Inr method
            \<and> method \<noteq> JStr ''mining.subscribe'' \<and> method \<noteq> JStr ''mining.authorize''
            \<and> method \<noteq> JStr ''mining.submit'')"
    by (rule disjI1)
  have b: "map_option buffer (map_of (clients exampleServer) ''10.0.0.1:4001'') = Some []"
    by (simp add: exampleServer_eq exampleClient_def)
  note th = handleMessage_bad_line [of exampleParse "''garbage''" "JsError ''SyntaxError''"
      exampleEnv "''10.0.0.1:4001''" exampleServer "\<lambda>k. exampleEnv" 3000
      "''subscribe-line'' @ [newline]", OF bad]
  have m: "handleMessage exampleParse exampleEnv ''garbage'' ''10.0.0.1:4001'' exampleServer
             = exampleServer"
    using th by (rule conjunct1)
  have d: "handleData exampleParse (\<lambda>k. exampleEnv) 3000
         (''garbage'' @ newline # ''subscribe-line'' @ [newline]) ''10.0.0.1:4001'' exampleServer
       = handleData exampleParse (\<lambda>k. exampleEnv) 3000
           (''subscribe-line'' @ [newline]) ''10.0.0.1:4001'' exampleServer"
    using th [THEN conjunct2, THEN conjunct2] newline_not_in(1) b by simp
  have sl: "splitLines (''subscribe-line'' @ [newline]) = ([''subscribe-line''], [])"
    using splitLines_line [OF newline_not_in(2), of "[]"] by (simp add: splitLines_Nil)
  note sl' = sl [simplified]
  have nb: "\<not> isBlank ''subscribe-line''" by (simp add: isBlank_def)
  have sub: "map_option (\<lambda>c. (isConnected c, isSubscribed c, isAuthorized c))
         (map_of (clients (handleData exampleParse (\<lambda>k. exampleEnv) 3000
            (''subscribe-line'' @ [newline]) ''10.0.0.1:4001'' exampleServer)) ''10.0.0.1:4001'')
       = Some (True, True, False)"
    by (simp add: handleData_def exampleServer_eq exampleClient_def sl' nb withClient_def
          handleMessage_def exampleParse_def getProp_def handleSubscription_def
          sendSubscriptionResponse_def sendResponse_def send_def sendJob_def
          sendNotification_def)
  show ?thesis
    unfolding d by (intro conjI) (fact p newline_not_in(1) b m refl sub)+
qed


section \<open>Properties of the share path from the Stratum server to the ledger\<close>








end
